theory Spec2Isabelle
  imports Complex_Main "HOL-Library.Sublist" "HOL-Library.AList"
begin

section \<open>JavaScript numbers, dates and strings\<close>

text \<open>
  A JavaScript number is an IEEE 754 double. The model keeps the finite doubles as the
  \<open>real\<close> numbers they denote and rounds the exact result of every addition, subtraction,
  multiplication and division to the nearest double, ties to the even significand, with
  gradual underflow (\<open>roundDouble\<close>). Counts, time values (milliseconds since the epoch)
  and the results of \<open>Math.round\<close>, \<open>Math.ceil\<close> and \<open>Math.floor\<close> are integers and
  have type \<open>int\<close> or \<open>nat\<close>.

  \<^item> \<open>NaN\<close> is never a \<open>real\<close>: a number that may be \<open>NaN\<close>, absent or non-numeric is an
    \<open>option\<close> with \<open>None\<close> for that case, and every comparison with it is written out
    as false.
  \<^item> The two zeros are one number. The functions modelled here never divide by zero (each
    divisor is tested for truthiness first), so the sign of a zero cannot be observed.
  \<^item> A result beyond the largest double, which the source turns into \<open>Infinity\<close>, has no
    counterpart: \<open>roundDouble\<close> has no largest exponent.
\<close>

text \<open>
  The exponent of the binade of a number, not below that of the smallest normal double,
  and its unit in the last place: a double has 53 significant bits.
\<close>

definition binade :: "real \<Rightarrow> int" where
  "binade x = max \<lfloor>log 2 \<bar>x\<bar>\<rfloor> (- 1022)"

definition ulp :: "real \<Rightarrow> real" where
  "ulp x = 2 powr real_of_int (binade x - 52)"

definition roundHalfEven :: "real \<Rightarrow> int" where
  "roundHalfEven y =
     (let f = \<lfloor>y\<rfloor>
      in if y - real_of_int f < 1 / 2 then f
         else if 1 / 2 < y - real_of_int f then f + 1
         else if even f then f else f + 1)"

definition roundDouble :: "real \<Rightarrow> real" where
  "roundDouble x = (if x = 0 then 0 else real_of_int (roundHalfEven (x / ulp x)) * ulp x)"

text \<open>The four operations \<open>+\<close>, \<open>-\<close>, \<open>*\<close> and \<open>/\<close> on doubles.\<close>

definition fadd :: "real \<Rightarrow> real \<Rightarrow> real" where
  "fadd x y = roundDouble (x + y)"

definition fsub :: "real \<Rightarrow> real \<Rightarrow> real" where
  "fsub x y = roundDouble (x - y)"

definition fmul :: "real \<Rightarrow> real \<Rightarrow> real" where
  "fmul x y = roundDouble (x * y)"

definition fdiv :: "real \<Rightarrow> real \<Rightarrow> real" where
  "fdiv x y = roundDouble (x / y)"

text \<open>
  \<open>Math.round\<close> (the nearest integer, a tie going up), \<open>Math.ceil\<close> and \<open>Math.floor\<close> are
  exact on a double.
\<close>

definition Math_round :: "real \<Rightarrow> int" where
  "Math_round x = \<lfloor>x + 1 / 2\<rfloor>"

definition Math_ceil :: "real \<Rightarrow> int" where
  "Math_ceil x = - \<lfloor>- x\<rfloor>"

definition Math_floor :: "real \<Rightarrow> int" where
  "Math_floor x = \<lfloor>x\<rfloor>"

text \<open>The constant \<open>1000 * 60 * 60 * 24\<close> of the source: the milliseconds of one day.\<close>

definition msPerDay :: int where
  "msPerDay = 1000 * 60 * 60 * 24"

text \<open>
  A \<open>Date\<close> object is its time value, \<open>None\<close> for an Invalid Date. \<open>TimeClip\<close> of the
  language standard makes a time value beyond 8.64e15 milliseconds invalid; a valid time
  value is thus an integer below \<open>2 ^ 53\<close> in absolute value, which is a double.
\<close>

definition TimeClip :: "int \<Rightarrow> int option" where
  "TimeClip t = (if \<bar>t\<bar> \<le> 8640000000000000 then Some t else None)"

text \<open>\<open>s.startsWith(p)\<close> on strings.\<close>

fun startsWith :: "string \<Rightarrow> string \<Rightarrow> bool" where
  "startsWith s [] = True"
| "startsWith [] (c # p) = False"
| "startsWith (d # s) (c # p) = (d = c \<and> startsWith s p)"

section \<open>Access guard (middleware)\<close>

definition protectedPaths :: "string list" where
  "protectedPaths =
     [''/'', ''/dashboard'', ''/profile'', ''/settings'', ''/admin'', ''/hotel-setup'',
      ''/hotels/settings'']"

definition authRoutes :: "string list" where
  "authRoutes = [''/login'', ''/signup'', ''/forgot-password'']"

text \<open>
  The three results of the middleware: a redirect to a path with its query parameters
  (\<open>NextResponse.redirect\<close>), or \<open>NextResponse.next()\<close>.
\<close>

datatype response = Redirect string "(string \<times> string) list" | Next

text \<open>
  The token is what \<open>getToken\<close> resolved to: \<open>None\<close> for \<open>null\<close> (no session), so that
  \<open>!token\<close> is \<open>token = None\<close>.
\<close>

definition middleware :: "string \<Rightarrow> 't option \<Rightarrow> response" where
  "middleware pathname token =
     (if list_ex (\<lambda>p. pathname = p \<or> startsWith pathname (p @ ''/'')) protectedPaths
         \<and> token = None
      then Redirect ''/login'' [(''callbackUrl'', pathname)]
      else if list_ex (\<lambda>p. pathname = p \<or> startsWith pathname (p @ ''/'')) authRoutes
         \<and> token \<noteq> None
      then Redirect ''/dashboard'' []
      else Next)"

section \<open>Booking details: nights of a stay\<close>

text \<open>
  \<open>calculateNights\<close> of the booking-details panel. The parsing done by \<open>new Date(string)\<close>
  is the parameter \<open>parseDate\<close> (\<open>None\<close> for an Invalid Date, whose \<open>getTime()\<close> is \<open>NaN\<close>);
  \<open>diffDays || 1\<close> is 1 both for 0 and for \<open>NaN\<close>.
\<close>

definition calculateNights :: "(string \<Rightarrow> int option) \<Rightarrow> string \<Rightarrow> string \<Rightarrow> int" where
  "calculateNights parseDate checkInDate checkOutDate =
     (if checkInDate = [] \<or> checkOutDate = [] then 1
      else
        (case (parseDate checkInDate, parseDate checkOutDate) of
           (Some checkIn, Some checkOut) \<Rightarrow>
             (let diffTime = \<bar>fsub (real_of_int checkOut) (real_of_int checkIn)\<bar>;
                  diffDays = Math_ceil (fdiv diffTime (real_of_int msPerDay))
              in if diffDays = 0 then 1 else diffDays)
         | _ \<Rightarrow> 1))"

section \<open>Dashboard: data model\<close>

text \<open>
  The records received from the backend, with the fields that \<open>processGraphQLData\<close> reads.
  A field that TypeScript declares optional is an \<open>option\<close>. Where two interfaces share a
  field name, the later record's field carries a prefix (\<open>room_roomType\<close>, \<open>hotel_id\<close>,
  \<open>item_value\<close>, \<open>guest_name\<close>, ...); the field \<open>bookingStatus\<close> of the result is
  \<open>bookingStatusDistribution\<close>, the booking's own field keeping the name.

  \<^item> \<open>checkInDate\<close> and \<open>checkOutDate\<close> hold what \<open>new Date(string)\<close> makes of the field: the
    time value in milliseconds, \<open>None\<close> for an Invalid Date.
  \<^item> \<open>totalAmount\<close> and \<open>numberOfGuests\<close> hold the number of the response, \<open>None\<close> when
    \<open>Number(...)\<close> makes \<open>NaN\<close> of it (an absent or non-numeric field); the number is read
    as the nearest double.
  \<^item> An absent guest name or email is the empty string: both are falsy in the source.
    The \<open>guest\<close> of a booking is always present, as the interface declares it.
\<close>

record Guest =
  firstName :: string
  lastName :: string
  email :: string

record Booking =
  roomId :: string
  guest :: Guest
  bookingSource :: "string option"
  checkInDate :: "int option"
  checkOutDate :: "int option"
  roomType :: string
  bookingStatus :: string
  totalAmount :: "real option"
  numberOfGuests :: "real option"

record Room =
  room_id :: string
  room_roomType :: string
  status :: string
  isActive :: bool
  room_floor :: "int option"

record Hotel =
  hotel_id :: string
  floorCount :: int
  roomCount :: int

text \<open>\<open>DateRange\<close> of the date picker: each end is a \<open>Date\<close> (its time value) or undefined.\<close>

record DateRange =
  range_from :: "int option"
  range_to :: "int option"

record ChartDataItem =
  name :: string
  item_value :: real

text \<open>
  A \<open>TrendDataItem\<close>. Its \<open>date\<close> label is \<open>format(d, 'MMM dd')\<close> in the source; the model keeps
  the number that is formatted (a time value for the occupancy timeline, a day number for
  the booking trends) instead of the label.
\<close>

record TrendDataItem =
  date :: int
  trend_bookings :: "int option"
  revenue :: "real option"
  occupancy :: "int option"

record GuestItem =
  guest_name :: string
  guest_email :: string
  bookings :: int
  totalSpent :: real

record OverviewMetrics =
  totalBookings :: int
  totalBookingsChange :: int
  occupancyRate :: int
  occupancyRateChange :: int
  totalRevenue :: real
  totalRevenueChange :: int
  averageDailyRate :: int
  averageDailyRateChange :: int
  revPAR :: int
  totalGuests :: real
  totalRooms :: int

record DashboardData =
  overview :: OverviewMetrics
  recentBookings :: "Booking list"
  roomTypeDistribution :: "ChartDataItem list"
  bookingTrends :: "TrendDataItem list"
  bookingSources :: "ChartDataItem list"
  bookingStatusDistribution :: "ChartDataItem list"
  roomStatus :: "ChartDataItem list"
  roomTypePerformance :: "ChartDataItem list"
  floorOccupancy :: "ChartDataItem list"
  occupancyTimeline :: "TrendDataItem list"
  guestTypes :: "ChartDataItem list"
  stayDuration :: "ChartDataItem list"
  guestSatisfaction :: "ChartDataItem list"
  topGuests :: "GuestItem list"
  guestDemographics :: "ChartDataItem list"
  revenueTrends :: "TrendDataItem list"
  revenueByRoomType :: "ChartDataItem list"
  paymentMethods :: "ChartDataItem list"

text \<open>
  What \<open>processGraphQLData\<close> throws: its own \<open>Error("Invalid date range")\<close>, and the
  \<open>TypeError\<close> of reading \<open>hotel.floorCount\<close> when the hotel list is empty.
\<close>

datatype error = InvalidDateRange | TypeError

section \<open>Dashboard: helpers of the aggregation\<close>

text \<open>\<open>Number(booking.totalAmount) || 0\<close>: \<open>NaN\<close> and 0 both give 0.\<close>

definition amountOrZero :: "real option \<Rightarrow> real" where
  "amountOrZero a = (case a of None \<Rightarrow> 0 | Some x \<Rightarrow> roundDouble x)"

text \<open>\<open>Number(booking.numberOfGuests) || 1\<close>: \<open>NaN\<close> and 0 both give 1.\<close>

definition guestsOrOne :: "real option \<Rightarrow> real" where
  "guestsOrOne g =
     (case g of None \<Rightarrow> 1 | Some n \<Rightarrow> if roundDouble n = 0 then 1 else roundDouble n)"

text \<open>
  \<open>d >= lo && d <= hi\<close> on \<open>Date\<close> objects: a comparison of time values, false as soon as
  one of them is \<open>NaN\<close>.
\<close>

definition dateWithin :: "int option \<Rightarrow> int option \<Rightarrow> int option \<Rightarrow> bool" where
  "dateWithin d lo hi =
     (case (d, lo, hi) of (Some t, Some l, Some h) \<Rightarrow> l \<le> t \<and> t \<le> h | _ \<Rightarrow> False)"

text \<open>
  \<open>subDays(date, amount)\<close> of date-fns is \<open>addDays(date, -amount)\<close>: the date itself when the
  amount is 0, else \<open>setDate(getDate() - amount)\<close> on a copy, which moves the time value
  by whole days (in a time zone without daylight-saving changes, which the model assumes)
  and yields an Invalid Date when the result leaves the range of time values.
\<close>

definition subDays :: "int \<Rightarrow> int \<Rightarrow> int option" where
  "subDays d amount = (if amount = 0 then Some d else TimeClip (d - amount * msPerDay))"

text \<open>
  \<open>format(d, 'yyyy-MM-dd')\<close> names the calendar day of \<open>d\<close>; the model uses the day number
  (days since the epoch, same time-zone assumption) as the key.
\<close>

definition dayKey :: "int \<Rightarrow> int" where
  "dayKey t = t div msPerDay"

text \<open>
  The group-by step shared by the \<open>reduce\<close> calls that build a \<open>ChartDataItem[]\<close>: push a new
  item when no item has the name, else add to the first item with the name.
\<close>

definition findIndex :: "('a \<Rightarrow> bool) \<Rightarrow> 'a list \<Rightarrow> int" where
  "findIndex P xs = (if list_ex P xs then int (length (takeWhile (\<lambda>x. \<not> P x) xs)) else - 1)"

definition addToItem :: "string \<Rightarrow> real \<Rightarrow> ChartDataItem list \<Rightarrow> ChartDataItem list" where
  "addToItem key v acc =
     (if find (\<lambda>item. name item = key) acc = None
      then acc @ [\<lparr>name = key, item_value = v\<rparr>]
      else
        (let index = nat (findIndex (\<lambda>item. name item = key) acc)
         in acc[index := (acc ! index)\<lparr>item_value := fadd (item_value (acc ! index)) v\<rparr>]))"

text \<open>\<open>s.trim()\<close>, on the ASCII white space and line terminators.\<close>

definition isWhiteSpace :: "char \<Rightarrow> bool" where
  "isWhiteSpace c \<longleftrightarrow> c \<in> set [CHR '' '', CHR 0x09, CHR 0x0A, CHR 0x0B, CHR 0x0C, CHR 0x0D]"

definition trim :: "string \<Rightarrow> string" where
  "trim s = rev (dropWhile isWhiteSpace (rev (dropWhile isWhiteSpace s)))"

text \<open>The decimal digits of a number, for the template literal \<open>`Floor ${i}`\<close>.\<close>

fun decimal :: "nat \<Rightarrow> string" where
  "decimal n =
     (if n < 10 then [char_of (48 + n)] else decimal (n div 10) @ [char_of (48 + n mod 10)])"

text \<open>
  \<open>Math.random()\<close>: the source of pseudo-random numbers is a sequence \<open>random\<close> of doubles,
  and the state is the number of draws made so far.
\<close>

type_synonym rng = "nat \<Rightarrow> real"

section \<open>Dashboard: the steps of \<open>processGraphQLData\<close>\<close>

text \<open>
  Each local constant of \<open>processGraphQLData\<close> is a definition of its own, named after the
  constant with the suffix \<open>_of\<close> where the name is also a field of the result. The two ends
  of the date range are \<open>dateFrom\<close> and \<open>dateTo\<close> (\<open>dateRange.from\<close>, \<open>dateRange.to\<close>).
\<close>

definition filteredBookings :: "Booking list \<Rightarrow> int \<Rightarrow> int \<Rightarrow> Booking list" where
  "filteredBookings bookingsList dateFrom dateTo =
     filter (\<lambda>booking. dateWithin (checkInDate booking) (Some dateFrom) (Some dateTo)) bookingsList"

text \<open>
  The previous period. The source passes \<open>dateRange.to.getTime() - dateRange.from.getTime()\<close>,
  a number of milliseconds, as the number of days of \<open>subDays\<close>.
\<close>

definition previousPeriodStart :: "int \<Rightarrow> int \<Rightarrow> int option" where
  "previousPeriodStart dateFrom dateTo = subDays dateFrom (dateTo - dateFrom)"

definition previousPeriodEnd :: "int \<Rightarrow> int option" where
  "previousPeriodEnd dateFrom = subDays dateFrom 1"

definition previousPeriodBookings :: "Booking list \<Rightarrow> int \<Rightarrow> int \<Rightarrow> Booking list" where
  "previousPeriodBookings bookingsList dateFrom dateTo =
     filter (\<lambda>booking. dateWithin (checkInDate booking)
                (previousPeriodStart dateFrom dateTo) (previousPeriodEnd dateFrom)) bookingsList"

definition totalBookingsChange_of :: "Booking list \<Rightarrow> Booking list \<Rightarrow> real" where
  "totalBookingsChange_of filtered previousPeriod =
     (let totalBookings = int (length filtered);
          previousTotalBookings = int (length previousPeriod)
      in if previousTotalBookings \<noteq> 0
         then fmul (fdiv (real_of_int (totalBookings - previousTotalBookings))
                      (real_of_int previousTotalBookings)) 100
         else 0)"

definition totalRevenue_of :: "Booking list \<Rightarrow> real" where
  "totalRevenue_of bs = foldl (\<lambda>sum booking. fadd sum (amountOrZero (totalAmount booking))) 0 bs"

definition totalRevenueChange_of :: "Booking list \<Rightarrow> Booking list \<Rightarrow> real" where
  "totalRevenueChange_of filtered previousPeriod =
     (let totalRevenue = totalRevenue_of filtered;
          previousTotalRevenue = totalRevenue_of previousPeriod
      in if previousTotalRevenue \<noteq> 0
         then fmul (fdiv (fsub totalRevenue previousTotalRevenue) previousTotalRevenue) 100
         else 0)"

definition activeRooms :: "Room list \<Rightarrow> nat" where
  "activeRooms rooms = length (filter isActive rooms)"

text \<open>\<open>new Set(filteredBookings.map(booking => booking.roomId)).size\<close>\<close>

definition occupiedRooms :: "Booking list \<Rightarrow> nat" where
  "occupiedRooms filtered = card (set (map roomId filtered))"

definition occupancyRate_of :: "Room list \<Rightarrow> Booking list \<Rightarrow> int" where
  "occupancyRate_of rooms filtered =
     (if activeRooms rooms \<noteq> 0
      then Math_round (fmul (fdiv (real (occupiedRooms filtered)) (real (activeRooms rooms))) 100)
      else 0)"

text \<open>
  The nights one booking adds to \<open>totalNights\<close>: \<open>nights > 0 ? nights : 1\<close>, where \<open>nights\<close> is
  \<open>NaN\<close> (and the comparison false) when either date is invalid.
\<close>

definition nightsOf :: "Booking \<Rightarrow> int" where
  "nightsOf booking =
     (case (checkInDate booking, checkOutDate booking) of
        (Some checkIn, Some checkOut) \<Rightarrow>
          (let nights = Math_ceil (fdiv (fsub (real_of_int checkOut) (real_of_int checkIn))
                                     (real_of_int msPerDay))
           in if nights > 0 then nights else 1)
      | _ \<Rightarrow> 1)"

definition totalNights :: "Booking list \<Rightarrow> real" where
  "totalNights filtered =
     foldl (\<lambda>sum booking. fadd sum (real_of_int (nightsOf booking))) 0 filtered"

definition averageDailyRate_of :: "Booking list \<Rightarrow> int" where
  "averageDailyRate_of filtered =
     (if totalNights filtered \<noteq> 0
      then Math_round (fdiv (totalRevenue_of filtered) (totalNights filtered))
      else 0)"

definition totalRoomNights :: "Room list \<Rightarrow> int \<Rightarrow> int \<Rightarrow> real" where
  "totalRoomNights rooms dateFrom dateTo =
     fmul (real (activeRooms rooms))
       (real_of_int (Math_ceil (fdiv (fsub (real_of_int dateTo) (real_of_int dateFrom))
                                  (real_of_int msPerDay))))"

definition revPAR_of :: "Room list \<Rightarrow> Booking list \<Rightarrow> int \<Rightarrow> int \<Rightarrow> int" where
  "revPAR_of rooms filtered dateFrom dateTo =
     (if totalRoomNights rooms dateFrom dateTo \<noteq> 0
      then Math_round (fdiv (totalRevenue_of filtered) (totalRoomNights rooms dateFrom dateTo))
      else 0)"

definition roomTypeDistribution_of :: "Room list \<Rightarrow> ChartDataItem list" where
  "roomTypeDistribution_of rooms =
     foldl (\<lambda>acc room. addToItem (room_roomType room) 1 acc) [] rooms"

text \<open>\<open>booking.bookingSource || 'Direct'\<close>: an absent and an empty source are both falsy.\<close>

definition sourceOrDirect :: "string option \<Rightarrow> string" where
  "sourceOrDirect src = (case src of None \<Rightarrow> ''Direct'' | Some s \<Rightarrow> if s = [] then ''Direct'' else s)"

definition bookingSources_of :: "Booking list \<Rightarrow> ChartDataItem list" where
  "bookingSources_of filtered =
     foldl (\<lambda>acc booking. addToItem (sourceOrDirect (bookingSource booking)) 1 acc) [] filtered"

definition bookingStatus_of :: "Booking list \<Rightarrow> ChartDataItem list" where
  "bookingStatus_of filtered =
     foldl (\<lambda>acc booking. addToItem (bookingStatus booking) 1 acc) [] filtered"

text \<open>
  \<open>bookingsByDate\<close>: a \<open>Record\<close> from the day to its count and revenue, as an association
  list in the order in which the keys were first written (the order of \<open>Object.keys\<close>).
  The source's \<open>format\<close> throws on an Invalid Date; no filtered booking has one (lemma
  \<open>filteredBookings_valid\<close> below), and the model leaves the record unchanged there.
\<close>

definition bookingsByDate_step ::
  "(int \<times> int \<times> real) list \<Rightarrow> Booking \<Rightarrow> (int \<times> int \<times> real) list" where
  "bookingsByDate_step acc booking =
     (case checkInDate booking of
        None \<Rightarrow> acc
      | Some checkIn \<Rightarrow>
          (let day = dayKey checkIn;
               (count, rev) = (case map_of acc day of None \<Rightarrow> (0, 0) | Some e \<Rightarrow> e)
           in AList.update day (count + 1, fadd rev (amountOrZero (totalAmount booking))) acc))"

definition bookingsByDate :: "Booking list \<Rightarrow> (int \<times> int \<times> real) list" where
  "bookingsByDate filtered = foldl bookingsByDate_step [] filtered"

text \<open>
  \<open>bookingTrends\<close>: one item per key of \<open>bookingsByDate\<close>. The source then sorts the items by
  re-parsing their \<open>'MMM dd'\<close> labels with \<open>new Date\<close>, whose result for such a string depends
  on the JavaScript engine: the model keeps the items in key order, and nothing below
  depends on their order. The re-parsing of a key succeeds for check-in dates in the years
  0000 to 9999, which the model assumes.
\<close>

definition bookingTrends_of :: "Booking list \<Rightarrow> TrendDataItem list" where
  "bookingTrends_of filtered =
     map (\<lambda>(day, count, rev).
            \<lparr>date = day, trend_bookings = Some count, revenue = Some rev, occupancy = None\<rparr>)
         (bookingsByDate filtered)"

definition revenueTrends_of :: "Booking list \<Rightarrow> TrendDataItem list" where
  "revenueTrends_of filtered =
     map (\<lambda>day. \<lparr>date = date day, trend_bookings = None, revenue = revenue day, occupancy = None\<rparr>)
         (bookingTrends_of filtered)"

definition revenueByRoomType_of :: "Booking list \<Rightarrow> ChartDataItem list" where
  "revenueByRoomType_of filtered =
     foldl (\<lambda>acc booking. addToItem (roomType booking) (amountOrZero (totalAmount booking)) acc)
       [] filtered"

definition totalGuests_of :: "Booking list \<Rightarrow> real" where
  "totalGuests_of filtered =
     foldl (\<lambda>sum booking. fadd sum (guestsOrOne (numberOfGuests booking))) 0 filtered"

definition guestTypes_of :: "Booking list \<Rightarrow> ChartDataItem list" where
  "guestTypes_of filtered =
     (let guestEmails = map (\<lambda>b. email (guest b)) filtered;
          newGuests = int (card (set guestEmails));
          returningGuests = int (length guestEmails) - newGuests
      in [\<lparr>name = ''New'', item_value = real_of_int newGuests\<rparr>,
          \<lparr>name = ''Returning'',
           item_value = (if returningGuests > 0 then real_of_int returningGuests else 0)\<rparr>])"

text \<open>
  The mock series: \<open>Math.round(filteredBookings.length * share)\<close> per label, the literal
  \<open>share\<close> being the nearest double.
\<close>

definition mockShares :: "(string \<times> real) list \<Rightarrow> Booking list \<Rightarrow> ChartDataItem list" where
  "mockShares shares filtered =
     map (\<lambda>(label, share).
            \<lparr>name = label,
             item_value =
               real_of_int (Math_round (fmul (real (length filtered)) (roundDouble share)))\<rparr>)
         shares"

definition guestSatisfaction_of :: "Booking list \<Rightarrow> ChartDataItem list" where
  "guestSatisfaction_of =
     mockShares [(''5 Stars'', 0.6), (''4 Stars'', 0.3), (''3 Stars'', 0.07), (''2 Stars'', 0.02),
                 (''1 Star'', 0.01)]"

definition guestDemographics_of :: "Booking list \<Rightarrow> ChartDataItem list" where
  "guestDemographics_of =
     mockShares [(''United States'', 0.4), (''Canada'', 0.15), (''United Kingdom'', 0.12),
                 (''Australia'', 0.08), (''Germany'', 0.05), (''Other'', 0.2)]"

definition paymentMethods_of :: "Booking list \<Rightarrow> ChartDataItem list" where
  "paymentMethods_of =
     mockShares [(''Credit Card'', 0.7), (''Debit Card'', 0.15), (''PayPal'', 0.1), (''Cash'', 0.05)]"

definition stayDuration_of :: "Booking list \<Rightarrow> ChartDataItem list" where
  "stayDuration_of =
     mockShares [(''1-3 days'', 0.6), (''4-7 days'', 0.3), (''8-14 days'', 0.07), (''15+ days'', 0.03)]"

definition roomStatus_of :: "Room list \<Rightarrow> ChartDataItem list" where
  "roomStatus_of rooms =
     [\<lparr>name = ''Available'', item_value = real (length (filter (\<lambda>r. status r = ''AVAILABLE'') rooms))\<rparr>,
      \<lparr>name = ''Occupied'', item_value = real (length (filter (\<lambda>r. status r = ''OCCUPIED'') rooms))\<rparr>,
      \<lparr>name = ''Maintenance'',
       item_value = real (length (filter (\<lambda>r. status r = ''MAINTENANCE'') rooms))\<rparr>,
      \<lparr>name = ''Cleaning'', item_value = real (length (filter (\<lambda>r. status r = ''CLEANING'') rooms))\<rparr>]"

definition roomTypePerformance_of :: "Room list \<Rightarrow> Booking list \<Rightarrow> ChartDataItem list" where
  "roomTypePerformance_of rooms filtered =
     map (\<lambda>type.
            (let typeBookings = filter (\<lambda>b. roomType b = name type) filtered
             in \<lparr>name = name type, item_value = real (length typeBookings)\<rparr>))
         (roomTypeDistribution_of rooms)"

text \<open>
  The floor heat map: the loop \<open>for (let i = 1; i <= (hotel.floorCount || 4); i++)\<close> over the
  list of its indices. A floor without rooms draws one pseudo-random number.
\<close>

fun floorOccupancy_loop :: "Room list \<Rightarrow> rng \<Rightarrow> int list \<Rightarrow> nat \<Rightarrow> ChartDataItem list \<times> nat" where
  "floorOccupancy_loop rooms random [] k = ([], k)"
| "floorOccupancy_loop rooms random (i # floors) k =
     (let floorRooms = filter (\<lambda>r. room_floor r = Some i) rooms;
          occupiedFloorRooms = filter (\<lambda>r. status r = ''OCCUPIED'') floorRooms;
          floorOccupancyRate =
            (if length floorRooms > 0
             then Math_round (fmul (fdiv (real (length occupiedFloorRooms))
                                      (real (length floorRooms))) 100)
             else Math_floor (fmul (random k) 100));
          k' = (if length floorRooms > 0 then k else Suc k);
          (rest, k'') = floorOccupancy_loop rooms random floors k'
      in (\<lparr>name = ''Floor '' @ decimal (nat i), item_value = real_of_int floorOccupancyRate\<rparr> # rest,
          k''))"

text \<open>
  The occupancy timeline. \<open>dateBookings\<close> are the filtered bookings with
  \<open>currentDate >= checkIn && currentDate <= checkOut\<close>; the day's rate is computed from them
  when there is an active room and drawn at random otherwise.
\<close>

definition dateBookings :: "Booking list \<Rightarrow> int \<Rightarrow> Booking list" where
  "dateBookings filtered currentDate =
     filter (\<lambda>b. dateWithin (Some currentDate) (checkInDate b) (checkOutDate b)) filtered"

definition dayOccupancyRate :: "Booking list \<Rightarrow> nat \<Rightarrow> rng \<Rightarrow> int \<Rightarrow> nat \<Rightarrow> int" where
  "dayOccupancyRate filtered active random currentDate k =
     (if active > 0
      then Math_round (fmul (fdiv (real (length (dateBookings filtered currentDate)))
                               (real active)) 100)
      else Math_floor (fmul (random k) 100))"

text \<open>
  The loop \<open>while (currentDate <= dateRange.to)\<close>: \<open>currentDate\<close> starts as a copy of
  \<open>dateRange.from\<close> and \<open>setDate(getDate() + 1)\<close> moves it by one day (same time-zone
  assumption as \<open>subDays\<close>); a date pushed beyond the range of time values is invalid and
  ends the loop, as the comparison with \<open>NaN\<close> is false.
\<close>

function occupancyTimeline_loop ::
  "Booking list \<Rightarrow> nat \<Rightarrow> rng \<Rightarrow> int \<Rightarrow> int option \<Rightarrow> nat \<Rightarrow> TrendDataItem list" where
  "occupancyTimeline_loop filtered active random dateTo currentDate k =
     (case currentDate of
        None \<Rightarrow> []
      | Some cur \<Rightarrow>
          if cur \<le> dateTo
          then \<lparr>date = cur, trend_bookings = None, revenue = None,
                occupancy = Some (dayOccupancyRate filtered active random cur k)\<rparr>
               # occupancyTimeline_loop filtered active random dateTo (TimeClip (cur + msPerDay))
                   (if active > 0 then k else Suc k)
          else [])"
  by pat_completeness auto
termination
  by (relation "measure (\<lambda>(filtered, active, random, dateTo, currentDate, k).
                   case currentDate of None \<Rightarrow> 0 | Some cur \<Rightarrow> nat (dateTo - cur + 1))")
     (auto simp: TimeClip_def msPerDay_def)

declare occupancyTimeline_loop.simps [simp del]

text \<open>
  The guest statistics: three \<open>Record\<close>s keyed by email, filled by one \<open>forEach\<close> over the
  filtered bookings; a booking without an email is skipped. A record is an association
  list of its own keys; an email is taken not to be the name of a property that every
  object inherits (such as \<open>constructor\<close>).
\<close>

type_synonym guestStats = "(string \<times> int) list \<times> (string \<times> real) list \<times> (string \<times> string) list"

definition guestStats_step :: "guestStats \<Rightarrow> Booking \<Rightarrow> guestStats" where
  "guestStats_step stats booking =
     (case stats of (guestBookingCount, guestSpending, guestNames) \<Rightarrow>
        if email (guest booking) \<noteq> []
        then
          (let e = email (guest booking)
           in (AList.update e ((case map_of guestBookingCount e of None \<Rightarrow> 0 | Some c \<Rightarrow> c) + 1)
                 guestBookingCount,
               AList.update e (fadd (case map_of guestSpending e of None \<Rightarrow> 0 | Some v \<Rightarrow> v)
                                 (amountOrZero (totalAmount booking)))
                 guestSpending,
               AList.update e (trim (firstName (guest booking) @ '' '' @ lastName (guest booking)))
                 guestNames))
        else stats)"

definition guestStats_of :: "Booking list \<Rightarrow> guestStats" where
  "guestStats_of filtered = foldl guestStats_step ([], [], []) filtered"

text \<open>
  \<open>Object.keys(guestBookingCount).map(email => ...)\<close>: one item per key of
  \<open>guestBookingCount\<close>, in key order (the order of first insertion: an email is not an
  array index). The three records have the same keys (lemma
  \<open>guestStats_keys\<close> below), so every lookup finds its key.
\<close>

definition guestItems :: "Booking list \<Rightarrow> GuestItem list" where
  "guestItems filtered =
     (case guestStats_of filtered of (guestBookingCount, guestSpending, guestNames) \<Rightarrow>
        map (\<lambda>e. \<lparr>guest_name =
                      (case map_of guestNames e of
                         None \<Rightarrow> ''Guest''
                       | Some n \<Rightarrow> if n = [] then ''Guest'' else n),
                    guest_email = e,
                    bookings = the (map_of guestBookingCount e),
                    totalSpent = the (map_of guestSpending e)\<rparr>)
            (map fst guestBookingCount))"

text \<open>
  \<open>topGuests\<close>: the items sorted by the comparator \<open>b.totalSpent - a.totalSpent\<close> (the sort
  of the language is stable, as is \<open>sort_key\<close>) and cut to the first ten by \<open>slice(0, 10)\<close>.
  The difference of two doubles, rounded, has the sign of the exact difference
  (\<open>topGuests_comparator\<close> below), so that the comparator orders the items by the key
  \<open>- totalSpent\<close>.
\<close>

definition topGuests_of :: "Booking list \<Rightarrow> GuestItem list" where
  "topGuests_of filtered = take 10 (sort_key (\<lambda>g. - totalSpent g) (guestItems filtered))"

text \<open>
  \<open>getHotels.find(h => h.id === selectedHotel?.id) || getHotels[0]\<close>: undefined, here
  \<open>None\<close>, when the list is empty.
\<close>

definition hotel_of :: "string option \<Rightarrow> Hotel list \<Rightarrow> Hotel option" where
  "hotel_of selectedHotel getHotels =
     (case find (\<lambda>h. Some (hotel_id h) = selectedHotel) getHotels of
        Some h \<Rightarrow> Some h
      | None \<Rightarrow> (case getHotels of [] \<Rightarrow> None | h # _ \<Rightarrow> Some h))"

section \<open>Dashboard: \<open>processGraphQLData\<close>\<close>

text \<open>
  The object that \<open>processGraphQLData\<close> returns, from the hotel it found, the two ends of
  the date range and the pseudo-random sequence. The floor heat map is computed first and
  leaves the number \<open>k\<close> of draws it made; the occupancy timeline continues from there.
\<close>

definition dashboardData ::
  "Hotel \<Rightarrow> rng \<Rightarrow> Room list \<Rightarrow> Booking list \<Rightarrow> int \<Rightarrow> int \<Rightarrow> DashboardData" where
  "dashboardData hotel random rooms bookingsList dateFrom dateTo =
     (let filtered = filteredBookings bookingsList dateFrom dateTo;
          previousPeriod = previousPeriodBookings bookingsList dateFrom dateTo;
          (floors, k) =
            floorOccupancy_loop rooms random
              [1 .. (if floorCount hotel = 0 then 4 else floorCount hotel)] 0
      in \<lparr>overview =
            \<lparr>totalBookings = int (length filtered),
             totalBookingsChange = Math_round (totalBookingsChange_of filtered previousPeriod),
             occupancyRate = occupancyRate_of rooms filtered,
             occupancyRateChange = 0,
             totalRevenue = totalRevenue_of filtered,
             totalRevenueChange = Math_round (totalRevenueChange_of filtered previousPeriod),
             averageDailyRate = averageDailyRate_of filtered,
             averageDailyRateChange = 0,
             revPAR = revPAR_of rooms filtered dateFrom dateTo,
             totalGuests = totalGuests_of filtered,
             totalRooms = (if roomCount hotel = 0 then int (length rooms) else roomCount hotel)\<rparr>,
          recentBookings = filtered,
          roomTypeDistribution = roomTypeDistribution_of rooms,
          bookingTrends = bookingTrends_of filtered,
          bookingSources = bookingSources_of filtered,
          bookingStatusDistribution = bookingStatus_of filtered,
          roomStatus = roomStatus_of rooms,
          roomTypePerformance = roomTypePerformance_of rooms filtered,
          floorOccupancy = floors,
          occupancyTimeline =
            occupancyTimeline_loop filtered (activeRooms rooms) random dateTo (Some dateFrom) k,
          guestTypes = guestTypes_of filtered,
          stayDuration = stayDuration_of filtered,
          guestSatisfaction = guestSatisfaction_of filtered,
          topGuests = topGuests_of filtered,
          guestDemographics = guestDemographics_of filtered,
          revenueTrends = revenueTrends_of filtered,
          revenueByRoomType = revenueByRoomType_of filtered,
          paymentMethods = paymentMethods_of filtered\<rparr>)"

text \<open>
  The function, with the id of the selected hotel (a variable of the enclosing component)
  and the pseudo-random sequence as parameters. It throws on an undefined end of the date
  range, and on an empty hotel list when it reads \<open>hotel.floorCount\<close>.
\<close>

definition processGraphQLData ::
  "string option \<Rightarrow> rng \<Rightarrow> Hotel list \<Rightarrow> Room list \<Rightarrow> Booking list \<Rightarrow> DateRange
     \<Rightarrow> error + DashboardData" where
  "processGraphQLData selectedHotel random getHotels rooms bookingsList dateRange =
     (case (range_from dateRange, range_to dateRange) of
        (Some dateFrom, Some dateTo) \<Rightarrow>
          (case hotel_of selectedHotel getHotels of
             None \<Rightarrow> Inl TypeError
           | Some hotel \<Rightarrow> Inr (dashboardData hotel random rooms bookingsList dateFrom dateTo))
      | _ \<Rightarrow> Inl InvalidDateRange)"

section \<open>The comparison baseline as the specification words it\<close>

text \<open>
  The bookings whose check-in date falls in a period of the same length as the date range
  that ends on the day before \<open>dateFrom\<close>. This definition follows the specification, not
  the source; it is compared with \<open>previousPeriodBookings\<close> below.
\<close>

definition baselineBookings_spec :: "Booking list \<Rightarrow> int \<Rightarrow> int \<Rightarrow> Booking list" where
  "baselineBookings_spec bookingsList dateFrom dateTo =
     filter (\<lambda>booking. dateWithin (checkInDate booking)
                (Some (dateFrom - msPerDay - (dateTo - dateFrom))) (Some (dateFrom - msPerDay)))
       bookingsList"

section \<open>Example data\<close>

text \<open>
  The inputs at which the theorems below are instantiated: instants at midnight of a day
  number, a booking, a room, one hotel, a date range, and a pseudo-random sequence.
\<close>

definition day :: "int \<Rightarrow> int" where
  "day n = n * msPerDay"

definition exGuest :: "string \<Rightarrow> Guest" where
  "exGuest e = \<lparr>firstName = ''Ada'', lastName = ''Byron'', email = e\<rparr>"

definition exBooking ::
  "string \<Rightarrow> string \<Rightarrow> int option \<Rightarrow> int option \<Rightarrow> real option \<Rightarrow> Booking" where
  "exBooking room e checkIn checkOut amount =
     \<lparr>roomId = room, guest = exGuest e, bookingSource = None, checkInDate = checkIn,
      checkOutDate = checkOut, roomType = ''DELUXE'', bookingStatus = ''CONFIRMED'',
      totalAmount = amount, numberOfGuests = Some 2\<rparr>"

definition exRoom :: "string \<Rightarrow> bool \<Rightarrow> Room" where
  "exRoom rid active =
     \<lparr>room_id = rid, room_roomType = ''DELUXE'', status = ''AVAILABLE'', isActive = active,
      room_floor = Some 1\<rparr>"

definition exHotel :: Hotel where
  "exHotel = \<lparr>hotel_id = ''h1'', floorCount = 1, roomCount = 1\<rparr>"

definition exRange :: "int \<Rightarrow> int \<Rightarrow> DateRange" where
  "exRange dateFrom dateTo = \<lparr>range_from = Some dateFrom, range_to = Some dateTo\<rparr>"

definition constDraws :: "real \<Rightarrow> rng" where
  "constDraws x k = x"

section \<open>Properties of the rounding to a double\<close>

lemma roundHalfEven_of_int [simp]: "roundHalfEven (real_of_int n) = n"
  by (simp add: roundHalfEven_def)

lemma roundHalfEven_range: "\<lfloor>y\<rfloor> \<le> roundHalfEven y" "roundHalfEven y \<le> \<lfloor>y\<rfloor> + 1"
  by (simp_all add: roundHalfEven_def Let_def)

lemma roundHalfEven_mono:
  assumes "y \<le> z"
  shows "roundHalfEven y \<le> roundHalfEven z"
proof (cases "\<lfloor>y\<rfloor> = \<lfloor>z\<rfloor>")
  case True
  with assms show ?thesis by (auto simp: roundHalfEven_def Let_def)
next
  case False
  with assms have "\<lfloor>y\<rfloor> < \<lfloor>z\<rfloor>" using floor_mono [OF assms] by linarith
  then have "roundHalfEven y \<le> \<lfloor>z\<rfloor>" using roundHalfEven_range(2) [of y] by linarith
  with roundHalfEven_range(1) [of z] show ?thesis by linarith
qed

lemma roundHalfEven_minus: "roundHalfEven (- y) = - roundHalfEven y"
proof (cases "y = real_of_int \<lfloor>y\<rfloor>")
  case True
  then have "roundHalfEven (- y) = roundHalfEven (real_of_int (- \<lfloor>y\<rfloor>))"
    by simp
  also have "\<dots> = - \<lfloor>y\<rfloor>" by (rule roundHalfEven_of_int)
  also have "\<dots> = - roundHalfEven y" using True roundHalfEven_of_int [of "\<lfloor>y\<rfloor>"] by simp
  finally show ?thesis .
next
  case False
  then have fl: "\<lfloor>- y\<rfloor> = - \<lfloor>y\<rfloor> - 1"
    by (metis ceiling_altdef ceiling_def add_diff_cancel_right' minus_diff_eq diff_minus_eq_add
        minus_minus uminus_add_conv_diff Ints_of_int of_int_floor)
  show ?thesis
    unfolding roundHalfEven_def Let_def fl using False
    by (auto simp: algebra_simps)
qed

lemma roundHalfEven_nonneg: "0 \<le> y \<Longrightarrow> 0 \<le> roundHalfEven y"
  using roundHalfEven_mono [of 0 y] roundHalfEven_of_int [of 0] by simp

lemma floor_log_bounds:
  assumes "x \<noteq> 0"
  shows "2 powr real_of_int \<lfloor>log 2 \<bar>x\<bar>\<rfloor> \<le> \<bar>x\<bar>"
    and "\<bar>x\<bar> < 2 powr real_of_int (\<lfloor>log 2 \<bar>x\<bar>\<rfloor> + 1)"
proof -
  from assms have pos: "0 < \<bar>x\<bar>" by simp
  have "\<lfloor>log 2 \<bar>x\<bar>\<rfloor> = \<lfloor>log 2 \<bar>x\<bar>\<rfloor>" ..
  then have "2 powr real_of_int \<lfloor>log 2 \<bar>x\<bar>\<rfloor> \<le> \<bar>x\<bar>
             \<and> \<bar>x\<bar> < 2 powr real_of_int (\<lfloor>log 2 \<bar>x\<bar>\<rfloor> + 1)"
    using floor_log_eq_powr_iff [OF pos, of 2 "\<lfloor>log 2 \<bar>x\<bar>\<rfloor>"] by simp
  then show "2 powr real_of_int \<lfloor>log 2 \<bar>x\<bar>\<rfloor> \<le> \<bar>x\<bar>"
    and "\<bar>x\<bar> < 2 powr real_of_int (\<lfloor>log 2 \<bar>x\<bar>\<rfloor> + 1)" by simp_all
qed

lemma binade_upper:
  assumes "x \<noteq> 0"
  shows "\<bar>x\<bar> < 2 powr real_of_int (binade x + 1)"
proof -
  have "\<lfloor>log 2 \<bar>x\<bar>\<rfloor> + 1 \<le> binade x + 1" by (simp add: binade_def)
  then have "(2::real) powr real_of_int (\<lfloor>log 2 \<bar>x\<bar>\<rfloor> + 1) \<le> 2 powr real_of_int (binade x + 1)"
    by simp
  with floor_log_bounds(2) [OF assms] show ?thesis by linarith
qed

lemma binade_lower:
  assumes "x \<noteq> 0" "- 1022 < binade x"
  shows "2 powr real_of_int (binade x) \<le> \<bar>x\<bar>"
proof -
  from assms(2) have "binade x = \<lfloor>log 2 \<bar>x\<bar>\<rfloor>" by (simp add: binade_def max_def split: if_splits)
  with floor_log_bounds(1) [OF assms(1)] show ?thesis by simp
qed

lemma binade_ge: "- 1022 \<le> binade x"
  by (simp add: binade_def)

lemma binade_minus [simp]: "binade (- x) = binade x"
  by (simp add: binade_def)

lemma binade_mono:
  assumes "0 < x" "x \<le> y"
  shows "binade x \<le> binade y"
proof -
  from assms have "log 2 \<bar>x\<bar> \<le> log 2 \<bar>y\<bar>" by simp
  then have "\<lfloor>log 2 \<bar>x\<bar>\<rfloor> \<le> \<lfloor>log 2 \<bar>y\<bar>\<rfloor>" by (rule floor_mono)
  then show ?thesis by (simp add: binade_def)
qed

lemma ulp_pos [simp]: "0 < ulp x"
  by (simp add: ulp_def)

lemma ulp_nonneg [simp]: "0 \<le> ulp x"
  by (simp add: ulp_def)

lemma ulp_neq_0 [simp]: "ulp x \<noteq> 0"
  by (simp add: ulp_def)

lemma ulp_minus [simp]: "ulp (- x) = ulp x"
  by (simp add: ulp_def)

lemma ulp_times_2_53: "ulp x * 2 ^ 53 = 2 powr real_of_int (binade x + 1)"
proof -
  have "(2::real) ^ 53 = 2 powr real_of_int 53" by (simp add: powr_numeral del: power_numeral)
  then have "ulp x * 2 ^ 53 = 2 powr (real_of_int (binade x - 52) + real_of_int 53)"
    unfolding ulp_def by (simp only: powr_add)
  moreover have "real_of_int (binade x - 52) + real_of_int 53 = real_of_int (binade x + 1)"
    by simp
  ultimately show ?thesis by (simp only:)
qed

lemma ulp_times_2_52: "ulp x * 2 ^ 52 = 2 powr real_of_int (binade x)"
proof -
  have "(2::real) ^ 52 = 2 powr real_of_int 52" by (simp add: powr_numeral del: power_numeral)
  then have "ulp x * 2 ^ 52 = 2 powr (real_of_int (binade x - 52) + real_of_int 52)"
    unfolding ulp_def by (simp only: powr_add)
  moreover have "real_of_int (binade x - 52) + real_of_int 52 = real_of_int (binade x)"
    by simp
  ultimately show ?thesis by (simp only:)
qed

lemma roundDouble_zero [simp]: "roundDouble 0 = 0"
  by (simp add: roundDouble_def)

lemma roundDouble_minus: "roundDouble (- x) = - roundDouble x"
  by (simp add: roundDouble_def roundHalfEven_minus)

lemma roundDouble_nonneg:
  assumes "0 \<le> x"
  shows "0 \<le> roundDouble x"
proof (cases "x = 0")
  case True
  then show ?thesis by simp
next
  case False
  from assms have "0 \<le> x / ulp x" by (intro divide_nonneg_pos) simp_all
  then have "0 \<le> roundHalfEven (x / ulp x)" by (rule roundHalfEven_nonneg)
  with False show ?thesis by (simp add: roundDouble_def)
qed

lemma roundDouble_upper:
  assumes "0 < x"
  shows "roundDouble x \<le> 2 powr real_of_int (binade x + 1)"
proof -
  from assms have x: "x \<noteq> 0" "\<bar>x\<bar> = x" by simp_all
  from binade_upper [OF x(1)] x(2) have "x < ulp x * 2 ^ 53" by (simp only: ulp_times_2_53)
  then have "x / ulp x < 2 ^ 53" by (simp only: pos_divide_less_eq [OF ulp_pos] mult.commute)
  then have "x / ulp x \<le> real_of_int (2 ^ 53)" by simp
  then have "roundHalfEven (x / ulp x) \<le> roundHalfEven (real_of_int (2 ^ 53))"
    by (rule roundHalfEven_mono)
  then have "roundHalfEven (x / ulp x) \<le> 2 ^ 53" by (simp only: roundHalfEven_of_int)
  then have "real_of_int (roundHalfEven (x / ulp x)) \<le> 2 ^ 53"
    by (metis of_int_le_iff of_int_numeral of_int_power)
  then have "real_of_int (roundHalfEven (x / ulp x)) * ulp x \<le> 2 ^ 53 * ulp x"
    by (rule mult_right_mono) simp
  then have "real_of_int (roundHalfEven (x / ulp x)) * ulp x \<le> 2 powr real_of_int (binade x + 1)"
    by (simp only: ulp_times_2_53 [symmetric] mult.commute)
  with x(1) show ?thesis by (simp only: roundDouble_def if_False)
qed

lemma roundDouble_lower:
  assumes "0 < x" "- 1022 < binade x"
  shows "2 powr real_of_int (binade x) \<le> roundDouble x"
proof -
  from assms have x: "x \<noteq> 0" "\<bar>x\<bar> = x" by simp_all
  from binade_lower [OF x(1) assms(2)] x(2) have "ulp x * 2 ^ 52 \<le> x" by (simp only: ulp_times_2_52)
  then have "2 ^ 52 \<le> x / ulp x" by (simp only: pos_le_divide_eq [OF ulp_pos] mult.commute)
  then have "real_of_int (2 ^ 52) \<le> x / ulp x" by simp
  then have "roundHalfEven (real_of_int (2 ^ 52)) \<le> roundHalfEven (x / ulp x)"
    by (rule roundHalfEven_mono)
  then have "2 ^ 52 \<le> roundHalfEven (x / ulp x)" by (simp only: roundHalfEven_of_int)
  then have "2 ^ 52 \<le> real_of_int (roundHalfEven (x / ulp x))"
    by (metis of_int_le_iff of_int_numeral of_int_power)
  then have "2 ^ 52 * ulp x \<le> real_of_int (roundHalfEven (x / ulp x)) * ulp x"
    by (rule mult_right_mono) simp
  then have "2 powr real_of_int (binade x) \<le> real_of_int (roundHalfEven (x / ulp x)) * ulp x"
    by (simp only: ulp_times_2_52 [symmetric] mult.commute)
  with x(1) show ?thesis by (simp only: roundDouble_def if_False)
qed

lemma roundDouble_mono_pos:
  assumes "0 < x" "x \<le> y"
  shows "roundDouble x \<le> roundDouble y"
proof (cases "binade x = binade y")
  case True
  then have u: "ulp x = ulp y" by (simp add: ulp_def)
  from assms have "x / ulp y \<le> y / ulp y" by (intro divide_right_mono) simp_all
  then have "roundHalfEven (x / ulp y) \<le> roundHalfEven (y / ulp y)" by (rule roundHalfEven_mono)
  then have "real_of_int (roundHalfEven (x / ulp y)) * ulp y
               \<le> real_of_int (roundHalfEven (y / ulp y)) * ulp y"
    by (intro mult_right_mono) simp_all
  with assms show ?thesis by (simp add: roundDouble_def u)
next
  case False
  with binade_mono [OF assms] have lt: "binade x < binade y" by simp
  with binade_ge [of x] have n: "- 1022 < binade y" by linarith
  from assms have y: "0 < y" by simp
  have "roundDouble x \<le> 2 powr real_of_int (binade x + 1)" by (rule roundDouble_upper [OF assms(1)])
  also have "\<dots> \<le> 2 powr real_of_int (binade y)" using lt by simp
  also have "\<dots> \<le> roundDouble y" by (rule roundDouble_lower [OF y n])
  finally show ?thesis .
qed

lemma roundDouble_mono:
  assumes "x \<le> y"
  shows "roundDouble x \<le> roundDouble y"
proof -
  consider "0 < x" | "x \<le> 0" "0 \<le> y" | "y < 0" by linarith
  then show ?thesis
  proof cases
    case 1
    then show ?thesis using assms by (rule roundDouble_mono_pos)
  next
    case 2
    from 2(1) have "0 \<le> roundDouble (- x)" by (intro roundDouble_nonneg) simp
    then have "roundDouble x \<le> 0" by (simp add: roundDouble_minus)
    also have "0 \<le> roundDouble y" using 2(2) by (rule roundDouble_nonneg)
    finally show ?thesis .
  next
    case 3
    then have "0 < - y" "- y \<le> - x" using assms by simp_all
    then have "roundDouble (- y) \<le> roundDouble (- x)" by (rule roundDouble_mono_pos)
    then show ?thesis by (simp add: roundDouble_minus)
  qed
qed

lemma mantissa_bound:
  assumes "x \<noteq> 0"
  shows "\<bar>x / ulp x\<bar> < 2 ^ 53"
proof -
  from binade_upper [OF assms] have "\<bar>x\<bar> < ulp x * 2 ^ 53" by (simp only: ulp_times_2_53)
  then have "\<bar>x\<bar> / ulp x < 2 ^ 53" by (simp only: pos_divide_less_eq [OF ulp_pos] mult.commute)
  then show ?thesis by simp
qed

lemma roundHalfEven_mantissa:
  assumes "x \<noteq> 0"
  shows "\<bar>roundHalfEven (x / ulp x)\<bar> \<le> 2 ^ 53"
proof -
  have c: "real_of_int (2 ^ 53) = 2 ^ 53" "real_of_int (- (2 ^ 53)) = - (2 ^ 53)" by simp_all
  from mantissa_bound [OF assms]
  have "- (2 ^ 53) \<le> x / ulp x" "x / ulp x \<le> 2 ^ 53" by linarith+
  then have "real_of_int (- (2 ^ 53)) \<le> x / ulp x" "x / ulp x \<le> real_of_int (2 ^ 53)"
    by (simp_all only: c)
  then have "roundHalfEven (real_of_int (- (2 ^ 53))) \<le> roundHalfEven (x / ulp x)"
    "roundHalfEven (x / ulp x) \<le> roundHalfEven (real_of_int (2 ^ 53))"
    by (simp_all only: roundHalfEven_mono)
  then have "- (2 ^ 53) \<le> roundHalfEven (x / ulp x)" "roundHalfEven (x / ulp x) \<le> 2 ^ 53"
    by (simp_all only: roundHalfEven_of_int)
  then show ?thesis by linarith
qed

lemma roundDouble_dyadic_strict:
  assumes "\<bar>m\<bar> < 2 ^ 53" "- 1074 \<le> k"
  shows "roundDouble (real_of_int m * 2 powr real_of_int k) = real_of_int m * 2 powr real_of_int k"
proof (cases "m = 0")
  case True
  then show ?thesis by simp
next
  case False
  define x where "x = real_of_int m * 2 powr real_of_int k"
  from False have x: "x \<noteq> 0" by (simp add: x_def)
  have abs: "\<bar>x\<bar> = real_of_int \<bar>m\<bar> * 2 powr real_of_int k" by (simp add: x_def abs_mult)
  from assms(1) have "real_of_int \<bar>m\<bar> < 2 ^ 53"
    by (metis of_int_less_iff of_int_numeral of_int_power)
  then have "\<bar>x\<bar> < 2 ^ 53 * 2 powr real_of_int k"
    unfolding abs by (intro mult_strict_right_mono) simp_all
  also have "(2::real) ^ 53 = 2 powr real_of_int 53" by (simp add: powr_numeral del: power_numeral)
  also have "2 powr real_of_int 53 * 2 powr real_of_int k = 2 powr real_of_int (k + 53)"
  proof -
    have "real_of_int 53 + real_of_int k = real_of_int (k + 53)" by simp
    then show ?thesis by (simp only: powr_add [symmetric])
  qed
  finally have up: "\<bar>x\<bar> < 2 powr real_of_int (k + 53)" .
  from floor_log_bounds(1) [OF x] up
  have "(2::real) powr real_of_int \<lfloor>log 2 \<bar>x\<bar>\<rfloor> < 2 powr real_of_int (k + 53)" by linarith
  then have "\<lfloor>log 2 \<bar>x\<bar>\<rfloor> < k + 53" by simp
  with assms(2) have u: "binade x - 52 \<le> k" by (simp add: binade_def)
  define u where "u = binade x - 52"
  define j where "j = nat (k - u)"
  have ulp_u: "ulp x = 2 powr real_of_int u" by (simp only: ulp_def u_def)
  from u have kj: "real_of_int k = real_of_int u + real j" by (simp add: j_def u_def)
  have "2 powr real_of_int k = 2 powr (real_of_int u + real j)" by (simp only: kj)
  also have "\<dots> = 2 powr real_of_int u * 2 powr real j" by (rule powr_add)
  also have "2 powr real j = (2::real) ^ j" by (simp add: powr_realpow)
  finally have "2 powr real_of_int k = ulp x * 2 ^ j" by (simp only: ulp_u)
  then have "x = real_of_int m * (ulp x * 2 ^ j)" by (simp only: x_def)
  then have "x / ulp x = real_of_int m * (ulp x * 2 ^ j) / ulp x" by (simp only:)
  also have "\<dots> = real_of_int m * 2 ^ j" using ulp_pos [of x] by (simp del: ulp_pos)
  also have "\<dots> = real_of_int (m * 2 ^ j)" by simp
  finally have q: "x / ulp x = real_of_int (m * 2 ^ j)" .
  have "roundDouble x = real_of_int (roundHalfEven (x / ulp x)) * ulp x"
    using x by (simp only: roundDouble_def if_False)
  also have "\<dots> = real_of_int (m * 2 ^ j) * ulp x"
    by (simp only: q roundHalfEven_of_int)
  also have "\<dots> = (x / ulp x) * ulp x" by (simp only: q)
  also have "\<dots> = x" by simp
  finally show ?thesis by (simp only: x_def)
qed

lemma roundDouble_dyadic:
  assumes "\<bar>m\<bar> \<le> 2 ^ 53" "- 1074 \<le> k"
  shows "roundDouble (real_of_int m * 2 powr real_of_int k) = real_of_int m * 2 powr real_of_int k"
proof (cases "\<bar>m\<bar> < 2 ^ 53")
  case True
  then show ?thesis using assms(2) by (rule roundDouble_dyadic_strict)
next
  case False
  with assms(1) have "\<bar>m\<bar> = 2 ^ 53" by simp
  then have "m = 2 ^ 53 \<or> m = - (2 ^ 53)" by linarith
  then obtain m' :: int where m': "m = m' * 2" "\<bar>m'\<bar> < 2 ^ 53"
    by (auto intro: that [of "2 ^ 52"] that [of "- (2 ^ 52)"])
  have "real_of_int m * 2 powr real_of_int k = real_of_int m' * 2 powr real_of_int (k + 1)"
    by (simp add: m'(1) powr_add)
  moreover from assms(2) have "- 1074 \<le> k + 1" by simp
  ultimately show ?thesis using roundDouble_dyadic_strict [OF m'(2), of "k + 1"] by simp
qed

lemma roundDouble_of_int:
  assumes "\<bar>n\<bar> \<le> 2 ^ 53"
  shows "roundDouble (real_of_int n) = real_of_int n"
  using roundDouble_dyadic [OF assms, of 0] by simp

lemma roundDouble_idem [simp]: "roundDouble (roundDouble x) = roundDouble x"
proof (cases "x = 0")
  case True
  then show ?thesis by simp
next
  case False
  have r: "roundDouble x = real_of_int (roundHalfEven (x / ulp x)) * 2 powr real_of_int (binade x - 52)"
    using False by (simp add: roundDouble_def ulp_def)
  have "- 1074 \<le> binade x - 52" using binade_ge [of x] by simp
  from roundDouble_dyadic [OF roundHalfEven_mantissa [OF False] this] show ?thesis
    by (simp only: r)
qed

lemma roundDouble_numeral:
  "numeral n \<le> (9007199254740992 :: int) \<Longrightarrow> roundDouble (numeral n) = numeral n"
  using roundDouble_of_int [of "numeral n"] by simp

lemma roundDouble_neg_numeral:
  "numeral n \<le> (9007199254740992 :: int) \<Longrightarrow> roundDouble (- numeral n) = - numeral n"
  using roundDouble_of_int [of "- numeral n"] by simp

lemma roundDouble_one [simp]: "roundDouble 1 = 1"
  using roundDouble_of_int [of 1] by simp

lemma roundDouble_half: "roundDouble (1 / 2) = 1 / 2"
  using roundDouble_dyadic [of 1 "- 1"] by (simp add: powr_minus_divide)

lemma roundDouble_ge_int:
  assumes "real_of_int n \<le> x" "\<bar>n\<bar> \<le> 2 ^ 53"
  shows "real_of_int n \<le> roundDouble x"
  using roundDouble_mono [OF assms(1)] roundDouble_of_int [OF assms(2)] by simp

lemma roundDouble_le_int:
  assumes "x \<le> real_of_int n" "\<bar>n\<bar> \<le> 2 ^ 53"
  shows "roundDouble x \<le> real_of_int n"
  using roundDouble_mono [OF assms(1)] roundDouble_of_int [OF assms(2)] by simp

lemma fsub_swap: "fsub x y = - fsub y x"
proof -
  have "x - y = - (y - x)" by simp
  then show ?thesis unfolding fsub_def by (simp only: roundDouble_minus)
qed

lemma fsub_self [simp]: "fsub x x = 0"
  by (simp add: fsub_def)

lemma fdiv_zero [simp]: "fdiv 0 y = 0"
  by (simp add: fdiv_def)

lemma fadd_zero_zero [simp]: "fadd 0 0 = 0"
  by (simp add: fadd_def)

lemma fadd_zero_right: "roundDouble x = x \<Longrightarrow> fadd x 0 = x"
  by (simp add: fadd_def)

lemma roundDouble_fadd [simp]: "roundDouble (fadd x y) = fadd x y"
  by (simp add: fadd_def)

lemma fdiv_nonneg: "0 \<le> x \<Longrightarrow> 0 \<le> y \<Longrightarrow> 0 \<le> fdiv x y"
  unfolding fdiv_def by (intro roundDouble_nonneg) simp

lemma fmul_nonneg: "0 \<le> x \<Longrightarrow> 0 \<le> y \<Longrightarrow> 0 \<le> fmul x y"
  unfolding fmul_def by (intro roundDouble_nonneg) simp

lemma fadd_nonneg: "0 \<le> x \<Longrightarrow> 0 \<le> y \<Longrightarrow> 0 \<le> fadd x y"
  unfolding fadd_def by (intro roundDouble_nonneg) simp

lemma roundHalfEven_near:
  assumes "\<bar>y - real_of_int m\<bar> < 1 / 2"
  shows "roundHalfEven y = m"
proof -
  from assms have "\<lfloor>y\<rfloor> = m \<or> \<lfloor>y\<rfloor> = m - 1" by linarith
  then show ?thesis
  proof
    assume f: "\<lfloor>y\<rfloor> = m"
    with assms have "y - real_of_int \<lfloor>y\<rfloor> < 1 / 2" by linarith
    then show ?thesis by (simp add: roundHalfEven_def Let_def f)
  next
    assume f: "\<lfloor>y\<rfloor> = m - 1"
    from assms have "real_of_int m - 1 / 2 < y" by linarith
    with f have "1 / 2 < y - real_of_int \<lfloor>y\<rfloor>" by simp
    then show ?thesis by (simp add: roundHalfEven_def Let_def f)
  qed
qed

text \<open>
  The rounding of a number of a known binade \<open>e\<close> that is nearer to the multiple \<open>m\<close> of
  the unit in the last place than to any other.
\<close>

lemma roundDouble_eval:
  assumes "2 powr real_of_int e \<le> \<bar>x\<bar>" "\<bar>x\<bar> < 2 powr real_of_int (e + 1)" "- 1022 \<le> e"
    and "\<bar>x / 2 powr real_of_int (e - 52) - real_of_int m\<bar> < 1 / 2"
  shows "roundDouble x = real_of_int m * 2 powr real_of_int (e - 52)"
proof -
  have "0 < (2::real) powr real_of_int e" by simp
  with assms(1) have pos: "0 < \<bar>x\<bar>" by linarith
  then have x: "x \<noteq> 0" by simp
  from assms(1,2) have "\<lfloor>log 2 \<bar>x\<bar>\<rfloor> = e"
    using floor_log_eq_powr_iff [OF pos, of 2 e] by simp
  with assms(3) have "binade x = e" by (simp add: binade_def)
  then have u: "ulp x = 2 powr real_of_int (e - 52)" by (simp only: ulp_def)
  from assms(4) have "roundHalfEven (x / ulp x) = m" unfolding u by (rule roundHalfEven_near)
  with x show ?thesis by (simp only: roundDouble_def if_False u)
qed

lemma roundHalfEven_tie:
  "roundHalfEven (real_of_int m + 1 / 2) = (if even m then m else m + 1)"
proof -
  have "\<lfloor>real_of_int m + 1 / 2\<rfloor> = m" by linarith
  then show ?thesis by (simp add: roundHalfEven_def Let_def)
qed

lemma roundDouble_eval_tie:
  assumes "2 powr real_of_int e \<le> \<bar>x\<bar>" "\<bar>x\<bar> < 2 powr real_of_int (e + 1)" "- 1022 \<le> e"
    and "x / 2 powr real_of_int (e - 52) = real_of_int m + 1 / 2"
  shows "roundDouble x = real_of_int (if even m then m else m + 1) * 2 powr real_of_int (e - 52)"
proof -
  have "0 < (2::real) powr real_of_int e" by simp
  with assms(1) have pos: "0 < \<bar>x\<bar>" by linarith
  then have x: "x \<noteq> 0" by simp
  from assms(1,2) have "\<lfloor>log 2 \<bar>x\<bar>\<rfloor> = e"
    using floor_log_eq_powr_iff [OF pos, of 2 e] by simp
  with assms(3) have "binade x = e" by (simp add: binade_def)
  then have u: "ulp x = 2 powr real_of_int (e - 52)" by (simp only: ulp_def)
  have "roundHalfEven (x / ulp x) = (if even m then m else m + 1)"
    unfolding u assms(4) by (rule roundHalfEven_tie)
  with x show ?thesis by (simp only: roundDouble_def if_False u)
qed

lemma two_powr_neg_numeral: "(2::real) powr (- numeral n) = 1 / 2 ^ numeral n"
  by (simp add: powr_minus_divide)

lemma two_powr_neg_one: "(2::real) powr (- 1) = 1 / 2"
  by (simp add: powr_minus_divide)

section \<open>Properties of the access guard\<close>

lemma startsWith_iff: "startsWith s p \<longleftrightarrow> (\<exists>r. s = p @ r)"
  by (induction s p rule: startsWith.induct) auto

lemma list_ex_matches:
  "list_ex (\<lambda>p. pathname = p \<or> startsWith pathname (p @ ''/'')) ps \<longleftrightarrow>
   (\<exists>p \<in> set ps. pathname = p \<or> (\<exists>r. pathname = p @ ''/'' @ r))"
  by (simp add: list_ex_iff startsWith_iff)

text \<open>
  C7. For every path and every token state the middleware decides one of three outcomes:
  a protected path (equal to a protected entry, or starting with the entry followed by a
  slash) without a token is redirected to \<open>/login\<close> with \<open>callbackUrl\<close> set to the path; an
  auth route (same matching) with a token is redirected to \<open>/dashboard\<close>; every other
  request proceeds.
\<close>

theorem middleware_three_outcomes:
  fixes pathname :: string and token :: "'t option"
  defines "protected \<equiv> \<exists>p \<in> set protectedPaths. pathname = p \<or> (\<exists>r. pathname = p @ ''/'' @ r)"
      and "authOnly \<equiv> \<exists>p \<in> set authRoutes. pathname = p \<or> (\<exists>r. pathname = p @ ''/'' @ r)"
  shows "(protected \<and> token = None \<longrightarrow>
            middleware pathname token = Redirect ''/login'' [(''callbackUrl'', pathname)])
       \<and> (authOnly \<and> token \<noteq> None \<longrightarrow>
            middleware pathname token = Redirect ''/dashboard'' [])
       \<and> (\<not> (protected \<and> token = None) \<and> \<not> (authOnly \<and> token \<noteq> None) \<longrightarrow>
            middleware pathname token = Next)"
  unfolding protected_def authOnly_def middleware_def list_ex_matches by simp

theorem middleware_three_outcomes_witness:
  "middleware ''/dashboard/rooms'' (None :: unit option)
     = Redirect ''/login'' [(''callbackUrl'', ''/dashboard/rooms'')]
   \<and> middleware ''/login'' (Some ()) = Redirect ''/dashboard'' []
   \<and> middleware ''/about'' (None :: unit option) = Next"
proof -
  have a: "\<exists>p \<in> set protectedPaths. ''/dashboard/rooms'' = p
             \<or> (\<exists>r. ''/dashboard/rooms'' = p @ ''/'' @ r)"
    by (simp add: protectedPaths_def)
  have b: "\<exists>p \<in> set authRoutes. ''/login'' = p \<or> (\<exists>r. ''/login'' = p @ ''/'' @ r)"
    by (simp add: authRoutes_def)
  have c: "\<not> (\<exists>p \<in> set protectedPaths. ''/about'' = p \<or> (\<exists>r. ''/about'' = p @ ''/'' @ r))"
    by (simp add: protectedPaths_def)
  from a b c
    middleware_three_outcomes [of "''/dashboard/rooms''" "None :: unit option"]
    middleware_three_outcomes [of "''/login''" "Some ()"]
    middleware_three_outcomes [of "''/about''" "None :: unit option"]
  show ?thesis by simp
qed

section \<open>Properties of the night count\<close>

lemma Math_ceil_nonneg: "0 \<le> x \<Longrightarrow> 0 \<le> Math_ceil x"
proof -
  assume "0 \<le> x"
  then have "\<lfloor>- x\<rfloor> \<le> 0" by (simp add: floor_le_zero)
  then show ?thesis by (simp add: Math_ceil_def)
qed

lemma calculateNights_cases:
  "calculateNights parseDate a b = 1
   \<or> (\<exists>ci co. parseDate a = Some ci \<and> parseDate b = Some co
        \<and> calculateNights parseDate a b
            = Math_ceil (fdiv \<bar>fsub (real_of_int co) (real_of_int ci)\<bar> (real_of_int msPerDay))
        \<and> Math_ceil (fdiv \<bar>fsub (real_of_int co) (real_of_int ci)\<bar> (real_of_int msPerDay)) \<noteq> 0)"
  by (auto simp: calculateNights_def Let_def split: option.splits)

text \<open>
  C10. \<open>calculateNights\<close> returns an integer of at least 1 for every pair of date strings;
  it returns 1 when either string is empty; the absolute difference makes the result the
  same when check-in and check-out are exchanged (so it is at least 1 also when check-out
  precedes check-in); and it returns 1 when both dates are the same instant.
\<close>

theorem calculateNights_at_least_one:
  "1 \<le> calculateNights parseDate checkInStr checkOutStr
   \<and> (checkInStr = [] \<or> checkOutStr = [] \<longrightarrow>
        calculateNights parseDate checkInStr checkOutStr = 1)
   \<and> calculateNights parseDate checkInStr checkOutStr
        = calculateNights parseDate checkOutStr checkInStr
   \<and> (parseDate checkInStr = parseDate checkOutStr \<longrightarrow>
        calculateNights parseDate checkInStr checkOutStr = 1)"
proof -
  have ge: "0 \<le> Math_ceil (fdiv \<bar>fsub (real_of_int b) (real_of_int a)\<bar> (real_of_int msPerDay))"
    for a b :: int
    by (intro Math_ceil_nonneg fdiv_nonneg) (simp_all add: msPerDay_def)
  have one: "1 \<le> calculateNights parseDate checkInStr checkOutStr"
  proof -
    from calculateNights_cases [of parseDate checkInStr checkOutStr]
    consider "calculateNights parseDate checkInStr checkOutStr = 1"
      | ci co where "calculateNights parseDate checkInStr checkOutStr
                       = Math_ceil (fdiv \<bar>fsub (real_of_int co) (real_of_int ci)\<bar>
                                      (real_of_int msPerDay))"
                    "Math_ceil (fdiv \<bar>fsub (real_of_int co) (real_of_int ci)\<bar>
                                  (real_of_int msPerDay)) \<noteq> 0"
      by blast
    then show ?thesis
    proof cases
      case 1
      then show ?thesis by linarith
    next
      case (2 ci co)
      with ge [of co ci] show ?thesis by linarith
    qed
  qed
  have sym: "\<bar>fsub b a\<bar> = \<bar>fsub a b\<bar>" for a b :: real
    using fsub_swap [of b a] by simp
  have swap: "calculateNights parseDate checkInStr checkOutStr
                = calculateNights parseDate checkOutStr checkInStr"
    by (auto simp: calculateNights_def Let_def sym [of "real_of_int _" "real_of_int _"]
          split: option.splits)
  have empty: "checkInStr = [] \<or> checkOutStr = [] \<longrightarrow>
                 calculateNights parseDate checkInStr checkOutStr = 1"
    by (auto simp: calculateNights_def)
  have same: "parseDate checkInStr = parseDate checkOutStr \<longrightarrow>
                calculateNights parseDate checkInStr checkOutStr = 1"
    by (auto simp: calculateNights_def Let_def Math_ceil_def split: option.splits)
  from one empty swap same show ?thesis by blast
qed

theorem calculateNights_at_least_one_witness:
  "calculateNights (map_of [(''2024-03-01'', 1709251200000), (''2024-03-04'', 1709510400000)])
      ''2024-03-04'' ''2024-03-01'' = 3
   \<and> calculateNights (map_of [(''2024-03-01'', 1709251200000)]) [] ''2024-03-01'' = 1
   \<and> calculateNights (map_of [(''2024-03-01'', 1709251200000)]) ''2024-03-01'' ''2024-03-01'' = 1
   \<and> calculateNights (map_of [(''2024-03-01'', 1709251200000)]) ''2024-03-01'' ''soon'' = 1"
proof -
  have "calculateNights (map_of [(''2024-03-01'', 1709251200000), (''2024-03-04'', 1709510400000)])
          ''2024-03-01'' ''2024-03-04'' = 3"
    by (simp add: calculateNights_def Math_ceil_def msPerDay_def fsub_def fdiv_def
        roundDouble_numeral)
  moreover have "calculateNights (map_of [(''2024-03-01'', 1709251200000)]) ''2024-03-01'' ''soon'' = 1"
    by (simp add: calculateNights_def)
  ultimately show ?thesis
    using calculateNights_at_least_one
            [of "map_of [(''2024-03-01'', 1709251200000), (''2024-03-04'', 1709510400000)]"
                "''2024-03-04''" "''2024-03-01''"]
          calculateNights_at_least_one [of "map_of [(''2024-03-01'', 1709251200000)]" "[]" "''2024-03-01''"]
          calculateNights_at_least_one
            [of "map_of [(''2024-03-01'', 1709251200000)]" "''2024-03-01''" "''2024-03-01''"]
    by simp
qed

section \<open>Dashboard: lemmas on the steps\<close>

lemma totalRevenue_of_Nil [simp]: "totalRevenue_of [] = 0"
  by (simp add: totalRevenue_of_def)

lemma totalRevenue_of_snoc:
  "totalRevenue_of (bs @ [b]) = fadd (totalRevenue_of bs) (amountOrZero (totalAmount b))"
  by (simp add: totalRevenue_of_def)

lemma totalRevenue_of_append:
  "totalRevenue_of (xs @ ys)
     = foldl (\<lambda>sum booking. fadd sum (amountOrZero (totalAmount booking))) (totalRevenue_of xs) ys"
  by (simp add: totalRevenue_of_def)

text \<open>A revenue sum is a double: rounding it again changes nothing.\<close>

lemma totalRevenue_of_double [simp]: "roundDouble (totalRevenue_of bs) = totalRevenue_of bs"
  by (cases bs rule: rev_cases) (simp_all add: totalRevenue_of_snoc)

lemma totalNights_Nil [simp]: "totalNights [] = 0"
  by (simp add: totalNights_def)

lemma totalNights_snoc:
  "totalNights (bs @ [b]) = fadd (totalNights bs) (real_of_int (nightsOf b))"
  by (simp add: totalNights_def)

lemma Math_round_nonneg: "0 \<le> x \<Longrightarrow> 0 \<le> Math_round x"
  by (simp add: Math_round_def)

lemma Math_round_le: "x \<le> real_of_int n \<Longrightarrow> Math_round x \<le> n"
  unfolding Math_round_def by linarith

lemma Math_round_of_int [simp]: "Math_round (real_of_int n) = n"
  by (simp add: Math_round_def)

lemma percentage_bounds:
  assumes "a \<noteq> 0"
  shows "0 \<le> fmul (fdiv (real n) (real a)) 100"
    and "n \<le> a \<Longrightarrow> fmul (fdiv (real n) (real a)) 100 \<le> 100"
proof -
  show "0 \<le> fmul (fdiv (real n) (real a)) 100"
    by (intro fmul_nonneg fdiv_nonneg) simp_all
  assume "n \<le> a"
  with assms have "real n / real a \<le> real_of_int 1" by simp
  then have "roundDouble (real n / real a) \<le> real_of_int 1"
    by (rule roundDouble_le_int) simp
  then have "fdiv (real n) (real a) * 100 \<le> real_of_int 100" by (simp add: fdiv_def)
  then have "roundDouble (fdiv (real n) (real a) * 100) \<le> real_of_int 100"
    by (rule roundDouble_le_int) simp
  then show "fmul (fdiv (real n) (real a)) 100 \<le> 100" by (simp add: fmul_def)
qed

lemma occupancyRate_of_bounds:
  "0 \<le> occupancyRate_of rooms filtered"
  "occupiedRooms filtered \<le> activeRooms rooms \<Longrightarrow> occupancyRate_of rooms filtered \<le> 100"
proof -
  show "0 \<le> occupancyRate_of rooms filtered"
    by (simp add: occupancyRate_of_def Math_round_nonneg percentage_bounds)
  assume le: "occupiedRooms filtered \<le> activeRooms rooms"
  show "occupancyRate_of rooms filtered \<le> 100"
  proof (cases "activeRooms rooms = 0")
    case True
    then show ?thesis by (simp add: occupancyRate_of_def)
  next
    case False
    from percentage_bounds(2) [OF False le]
    have "fmul (fdiv (real (occupiedRooms filtered)) (real (activeRooms rooms))) 100
            \<le> real_of_int 100" by simp
    then show ?thesis using False by (simp add: occupancyRate_of_def Math_round_le)
  qed
qed

lemma guestStats_snoc:
  "guestStats_of (bs @ [b]) = guestStats_step (guestStats_of bs) b"
  by (simp add: guestStats_of_def)

lemma guestStats_keys:
  "guestStats_of bs = (gbc, gs, gn) \<Longrightarrow>
     map fst gs = map fst gbc \<and> map fst gn = map fst gbc \<and> distinct (map fst gbc)"
proof (induction bs arbitrary: gbc gs gn rule: rev_induct)
  case Nil
  then show ?case by (simp add: guestStats_of_def)
next
  case (snoc b bs)
  obtain c s n where prev: "guestStats_of bs = (c, s, n)"
    by (cases "guestStats_of bs") auto
  from snoc.IH [OF prev] have ih: "map fst s = map fst c" "map fst n = map fst c" "distinct (map fst c)"
    by simp_all
  show ?case
  proof (cases "email (guest b) = []")
    case True
    with snoc.prems prev ih show ?thesis
      by (simp add: guestStats_snoc guestStats_step_def)
  next
    case False
    with snoc.prems prev ih show ?thesis
      by (auto simp: guestStats_snoc guestStats_step_def Let_def update_keys distinct_update)
  qed
qed

lemma filter_no_key: "e \<notin> f ` set bs \<Longrightarrow> filter (\<lambda>b. f b = e) bs = []"
  by (auto simp: filter_empty_conv)

lemma guestStats_step_nonempty:
  "email (guest b) \<noteq> [] \<Longrightarrow>
   guestStats_step (c, s, n) b =
     (AList.update (email (guest b)) ((case map_of c (email (guest b)) of None \<Rightarrow> 0 | Some v \<Rightarrow> v) + 1) c,
      AList.update (email (guest b))
        (fadd (case map_of s (email (guest b)) of None \<Rightarrow> 0 | Some v \<Rightarrow> v)
           (amountOrZero (totalAmount b))) s,
      AList.update (email (guest b)) (trim (firstName (guest b) @ '' '' @ lastName (guest b))) n)"
  by (simp add: guestStats_step_def Let_def)

lemma guestStats_step_empty:
  "email (guest b) = [] \<Longrightarrow> guestStats_step stats b = stats"
  by (simp add: guestStats_step_def split: prod.splits)

lemma guestStats_count:
  "guestStats_of bs = (gbc, gs, gn) \<Longrightarrow>
     map_of gbc e =
       (if e \<noteq> [] \<and> e \<in> (\<lambda>b. email (guest b)) ` set bs
        then Some (int (length (filter (\<lambda>b. email (guest b) = e) bs))) else None)"
proof (induction bs arbitrary: gbc gs gn e rule: rev_induct)
  case Nil
  then show ?case by (simp add: guestStats_of_def)
next
  case (snoc b bs)
  obtain c s n where prev: "guestStats_of bs = (c, s, n)"
    by (cases "guestStats_of bs") auto
  note ih = snoc.IH [OF prev]
  show ?case
  proof (cases "email (guest b) = []")
    case True
    with snoc.prems prev have "gbc = c"
      by (simp add: guestStats_snoc guestStats_step_empty)
    with ih [of e] True show ?thesis by auto
  next
    case False
    let ?k = "email (guest b)"
    have old: "(case map_of c ?k of None \<Rightarrow> 0 | Some v \<Rightarrow> v)
                 = int (length (filter (\<lambda>x. email (guest x) = ?k) bs))"
      using ih [of ?k] False by (simp add: filter_no_key)
    from snoc.prems prev False
    have gbc: "gbc = AList.update ?k ((case map_of c ?k of None \<Rightarrow> 0 | Some v \<Rightarrow> v) + 1) c"
      by (simp add: guestStats_snoc guestStats_step_nonempty)
    show ?thesis
    proof (cases "e = ?k")
      case True
      with False show ?thesis by (simp add: gbc update_conv' old)
    next
      case False
      then have "map_of gbc e = map_of c e" by (simp add: gbc update_conv')
      with ih [of e] False show ?thesis by auto
    qed
  qed
qed

lemma guestStats_spend:
  "guestStats_of bs = (gbc, gs, gn) \<Longrightarrow>
     map_of gs e =
       (if e \<noteq> [] \<and> e \<in> (\<lambda>b. email (guest b)) ` set bs
        then Some (totalRevenue_of (filter (\<lambda>b. email (guest b) = e) bs))
        else None)"
proof (induction bs arbitrary: gbc gs gn e rule: rev_induct)
  case Nil
  then show ?case by (simp add: guestStats_of_def)
next
  case (snoc b bs)
  obtain c s n where prev: "guestStats_of bs = (c, s, n)"
    by (cases "guestStats_of bs") auto
  note ih = snoc.IH [OF prev]
  show ?case
  proof (cases "email (guest b) = []")
    case True
    with snoc.prems prev have "gs = s"
      by (simp add: guestStats_snoc guestStats_step_empty)
    with ih [of e] True show ?thesis by auto
  next
    case False
    let ?k = "email (guest b)"
    have old: "(case map_of s ?k of None \<Rightarrow> 0 | Some v \<Rightarrow> v)
                 = totalRevenue_of (filter (\<lambda>x. email (guest x) = ?k) bs)"
      using ih [of ?k] False by (simp add: filter_no_key)
    from snoc.prems prev False
    have gs: "gs = AList.update ?k (fadd (case map_of s ?k of None \<Rightarrow> 0 | Some v \<Rightarrow> v)
                                      (amountOrZero (totalAmount b))) s"
      by (simp add: guestStats_snoc guestStats_step_nonempty)
    show ?thesis
    proof (cases "e = ?k")
      case True
      with False show ?thesis by (simp add: gs update_conv' old totalRevenue_of_snoc)
    next
      case False
      then have "map_of gs e = map_of s e" by (simp add: gs update_conv')
      with ih [of e] False show ?thesis by auto
    qed
  qed
qed

lemma guestStats_key_set:
  assumes "guestStats_of bs = (gbc, gs, gn)"
  shows "set (map fst gbc) = {e \<in> (\<lambda>b. email (guest b)) ` set bs. e \<noteq> []}"
proof -
  have "e \<in> set (map fst gbc) \<longleftrightarrow> e \<in> (\<lambda>b. email (guest b)) ` set bs \<and> e \<noteq> []" for e
  proof -
    have "e \<in> set (map fst gbc) \<longleftrightarrow> map_of gbc e \<noteq> None"
      by (simp add: map_of_eq_None_iff)
    then show ?thesis
      using guestStats_count [OF assms, of e] by auto
  qed
  then show ?thesis by blast
qed

lemma guestItems_emails:
  "map guest_email (guestItems bs) = map fst (fst (guestStats_of bs))"
  by (simp add: guestItems_def comp_def split: prod.splits)

lemma guestItems_distinct: "distinct (map guest_email (guestItems bs))"
proof -
  obtain c s n where st: "guestStats_of bs = (c, s, n)"
    by (cases "guestStats_of bs") auto
  from guestStats_keys [OF st] show ?thesis
    by (simp add: guestItems_emails st)
qed

lemma guestItems_email_set:
  "guest_email ` set (guestItems bs) = {e \<in> (\<lambda>b. email (guest b)) ` set bs. e \<noteq> []}"
proof -
  obtain c s n where st: "guestStats_of bs = (c, s, n)"
    by (cases "guestStats_of bs") auto
  have "guest_email ` set (guestItems bs) = set (map guest_email (guestItems bs))" by simp
  also have "\<dots> = set (map fst c)" by (simp only: guestItems_emails st fst_conv)
  finally show ?thesis using guestStats_key_set [OF st] by simp
qed

lemma guestItems_entry:
  assumes "g \<in> set (guestItems bs)"
  shows "guest_email g \<noteq> []"
    and "bookings g = int (length (filter (\<lambda>b. email (guest b) = guest_email g) bs))"
    and "totalSpent g = totalRevenue_of (filter (\<lambda>b. email (guest b) = guest_email g) bs)"
proof -
  obtain c s n where st: "guestStats_of bs = (c, s, n)"
    by (cases "guestStats_of bs") auto
  from assms have "guest_email g \<in> guest_email ` set (guestItems bs)" by blast
  then have key: "guest_email g \<in> (\<lambda>b. email (guest b)) ` set bs" "guest_email g \<noteq> []"
    by (simp_all add: guestItems_email_set)
  show "guest_email g \<noteq> []" by (rule key)
  from assms have g: "bookings g = the (map_of c (guest_email g))"
      "totalSpent g = the (map_of s (guest_email g))"
    by (auto simp: guestItems_def st)
  from key have "map_of c (guest_email g)
                   = Some (int (length (filter (\<lambda>b. email (guest b) = guest_email g) bs)))"
    using guestStats_count [OF st, of "guest_email g"] by simp
  with g show "bookings g = int (length (filter (\<lambda>b. email (guest b) = guest_email g) bs))"
    by simp
  from key have "map_of s (guest_email g)
                   = Some (totalRevenue_of (filter (\<lambda>b. email (guest b) = guest_email g) bs))"
    using guestStats_spend [OF st, of "guest_email g"] by simp
  with g show "totalSpent g = totalRevenue_of (filter (\<lambda>b. email (guest b) = guest_email g) bs)"
    by simp
qed

lemma topGuests_of_length: "length (topGuests_of bs) \<le> 10"
  by (simp add: topGuests_of_def)

lemma topGuests_of_subset: "set (topGuests_of bs) \<subseteq> set (guestItems bs)"
  using set_take_subset [of 10 "sort_key (\<lambda>g. - totalSpent g) (guestItems bs)"]
  by (simp add: topGuests_of_def)

lemma topGuests_of_sorted:
  "sorted_wrt (\<lambda>a b. totalSpent b \<le> totalSpent a) (topGuests_of bs)"
proof -
  have "sorted (map (\<lambda>g. - totalSpent g) (sort_key (\<lambda>g. - totalSpent g) (guestItems bs)))"
    by (rule sorted_sort_key)
  then have "sorted_wrt (\<lambda>a b. totalSpent b \<le> totalSpent a)
               (sort_key (\<lambda>g. - totalSpent g) (guestItems bs))"
    by (simp add: sorted_wrt_map)
  then show ?thesis
    unfolding topGuests_of_def by (rule sorted_wrt_take)
qed

lemma topGuests_of_distinct: "distinct (map guest_email (topGuests_of bs))"
proof -
  have d: "distinct (guestItems bs)" and inj: "inj_on guest_email (set (guestItems bs))"
    using guestItems_distinct [of bs] by (simp_all add: distinct_map)
  have "distinct (sort_key (\<lambda>g. - totalSpent g) (guestItems bs))"
    using d by simp
  then have "distinct (topGuests_of bs)"
    by (simp add: topGuests_of_def)
  moreover have "inj_on guest_email (set (topGuests_of bs))"
    using inj topGuests_of_subset by (rule inj_on_subset)
  ultimately show ?thesis by (simp add: distinct_map)
qed

lemma topGuests_of_count:
  "length (topGuests_of bs) = min 10 (card {e \<in> (\<lambda>b. email (guest b)) ` set bs. e \<noteq> []})"
proof -
  have "card {e \<in> (\<lambda>b. email (guest b)) ` set bs. e \<noteq> []}
          = card (set (map guest_email (guestItems bs)))"
    by (simp add: guestItems_email_set)
  also have "\<dots> = length (guestItems bs)"
    using distinct_card [OF guestItems_distinct [of bs]] by simp
  finally show ?thesis by (simp add: topGuests_of_def min.commute)
qed

lemma topGuests_of_top:
  assumes "g \<in> set (topGuests_of bs)" "h \<in> set (guestItems bs)" "h \<notin> set (topGuests_of bs)"
  shows "totalSpent h \<le> totalSpent g"
proof -
  let ?s = "sort_key (\<lambda>g. - totalSpent g) (guestItems bs)"
  have "sorted (map (\<lambda>g. - totalSpent g) ?s)" by (rule sorted_sort_key)
  then have "sorted_wrt (\<lambda>a b. totalSpent b \<le> totalSpent a) (take 10 ?s @ drop 10 ?s)"
    by (simp add: sorted_wrt_map)
  then have all: "\<forall>x \<in> set (take 10 ?s). \<forall>y \<in> set (drop 10 ?s). totalSpent y \<le> totalSpent x"
    unfolding sorted_wrt_append by blast
  from assms(2) have "h \<in> set (take 10 ?s @ drop 10 ?s)" by simp
  with assms(3) have "h \<in> set (drop 10 ?s)"
    unfolding set_append topGuests_of_def by blast
  with all assms(1) show ?thesis by (simp add: topGuests_of_def)
qed

lemma processGraphQLData_Inr:
  assumes "processGraphQLData selectedHotel random getHotels rooms bs dateRange = Inr d"
  obtains dateFrom dateTo hotel where
    "range_from dateRange = Some dateFrom" "range_to dateRange = Some dateTo"
    "hotel_of selectedHotel getHotels = Some hotel"
    "d = dashboardData hotel random rooms bs dateFrom dateTo"
  using assms by (auto simp: processGraphQLData_def split: option.splits)

lemma processGraphQLData_returns:
  assumes "range_from dateRange = Some dateFrom" "range_to dateRange = Some dateTo"
    "getHotels \<noteq> []"
  shows "\<exists>hotel. processGraphQLData selectedHotel random getHotels rooms bs dateRange
           = Inr (dashboardData hotel random rooms bs dateFrom dateTo)"
  using assms
  by (auto simp: processGraphQLData_def hotel_of_def split: option.splits list.splits)

lemma dashboardData_overview:
  "totalBookings (overview (dashboardData hotel random rooms bs dateFrom dateTo))
     = int (length (filteredBookings bs dateFrom dateTo))"
  "totalBookingsChange (overview (dashboardData hotel random rooms bs dateFrom dateTo))
     = Math_round (totalBookingsChange_of (filteredBookings bs dateFrom dateTo)
                     (previousPeriodBookings bs dateFrom dateTo))"
  "occupancyRate (overview (dashboardData hotel random rooms bs dateFrom dateTo))
     = occupancyRate_of rooms (filteredBookings bs dateFrom dateTo)"
  "totalRevenue (overview (dashboardData hotel random rooms bs dateFrom dateTo))
     = totalRevenue_of (filteredBookings bs dateFrom dateTo)"
  "totalRevenueChange (overview (dashboardData hotel random rooms bs dateFrom dateTo))
     = Math_round (totalRevenueChange_of (filteredBookings bs dateFrom dateTo)
                     (previousPeriodBookings bs dateFrom dateTo))"
  "averageDailyRate (overview (dashboardData hotel random rooms bs dateFrom dateTo))
     = averageDailyRate_of (filteredBookings bs dateFrom dateTo)"
  "revPAR (overview (dashboardData hotel random rooms bs dateFrom dateTo))
     = revPAR_of rooms (filteredBookings bs dateFrom dateTo) dateFrom dateTo"
  "totalGuests (overview (dashboardData hotel random rooms bs dateFrom dateTo))
     = totalGuests_of (filteredBookings bs dateFrom dateTo)"
  by (simp_all add: dashboardData_def Let_def split_beta)

lemma dashboardData_lists:
  "recentBookings (dashboardData hotel random rooms bs dateFrom dateTo)
     = filteredBookings bs dateFrom dateTo"
  "topGuests (dashboardData hotel random rooms bs dateFrom dateTo)
     = topGuests_of (filteredBookings bs dateFrom dateTo)"
  "bookingTrends (dashboardData hotel random rooms bs dateFrom dateTo)
     = bookingTrends_of (filteredBookings bs dateFrom dateTo)"
  "revenueTrends (dashboardData hotel random rooms bs dateFrom dateTo)
     = revenueTrends_of (filteredBookings bs dateFrom dateTo)"
  "bookingSources (dashboardData hotel random rooms bs dateFrom dateTo)
     = bookingSources_of (filteredBookings bs dateFrom dateTo)"
  "bookingStatusDistribution (dashboardData hotel random rooms bs dateFrom dateTo)
     = bookingStatus_of (filteredBookings bs dateFrom dateTo)"
  "revenueByRoomType (dashboardData hotel random rooms bs dateFrom dateTo)
     = revenueByRoomType_of (filteredBookings bs dateFrom dateTo)"
  "guestTypes (dashboardData hotel random rooms bs dateFrom dateTo)
     = guestTypes_of (filteredBookings bs dateFrom dateTo)"
  "roomTypePerformance (dashboardData hotel random rooms bs dateFrom dateTo)
     = roomTypePerformance_of rooms (filteredBookings bs dateFrom dateTo)"
  by (simp_all add: dashboardData_def Let_def split_beta)

lemma dashboardData_mock:
  "guestSatisfaction (dashboardData hotel random rooms bs dateFrom dateTo)
     = guestSatisfaction_of (filteredBookings bs dateFrom dateTo)"
  "guestDemographics (dashboardData hotel random rooms bs dateFrom dateTo)
     = guestDemographics_of (filteredBookings bs dateFrom dateTo)"
  "paymentMethods (dashboardData hotel random rooms bs dateFrom dateTo)
     = paymentMethods_of (filteredBookings bs dateFrom dateTo)"
  "stayDuration (dashboardData hotel random rooms bs dateFrom dateTo)
     = stayDuration_of (filteredBookings bs dateFrom dateTo)"
  by (simp_all add: dashboardData_def Let_def split_beta)

lemma dashboardData_timeline:
  "occupancyTimeline (dashboardData hotel random rooms bs dateFrom dateTo)
     = occupancyTimeline_loop (filteredBookings bs dateFrom dateTo) (activeRooms rooms) random
         dateTo (Some dateFrom)
         (snd (floorOccupancy_loop rooms random
                 [1 .. (if floorCount hotel = 0 then 4 else floorCount hotel)] 0))"
  by (simp add: dashboardData_def Let_def split_beta)

section \<open>Dashboard: evaluation at the example data\<close>

lemma ex_run:
  "\<exists>hotel. processGraphQLData selectedHotel random [exHotel] rooms bs (exRange dateFrom dateTo)
      = Inr (dashboardData hotel random rooms bs dateFrom dateTo)"
  by (rule processGraphQLData_returns) (simp_all add: exRange_def)

lemma ex_filter_in:
  "dateFrom \<le> c \<Longrightarrow> c \<le> dateTo \<Longrightarrow>
   filteredBookings (exBooking r e (Some c) co a # bs) dateFrom dateTo
     = exBooking r e (Some c) co a # filteredBookings bs dateFrom dateTo"
  by (simp add: filteredBookings_def dateWithin_def exBooking_def)

lemma ex_filter_out:
  "c < dateFrom \<or> dateTo < c \<Longrightarrow>
   filteredBookings (exBooking r e (Some c) co a # bs) dateFrom dateTo
     = filteredBookings bs dateFrom dateTo"
  by (auto simp: filteredBookings_def dateWithin_def exBooking_def)

lemma filteredBookings_Nil: "filteredBookings [] dateFrom dateTo = []"
  by (simp add: filteredBookings_def)

section \<open>Dashboard: occupancy rate\<close>

lemma occupiedRooms_image: "occupiedRooms bs = card (roomId ` set bs)"
  by (simp add: occupiedRooms_def)

text \<open>
  C1 (as amended). When there is an active room, the occupancy rate of the overview is never
  negative, and it is at most 100 whenever the distinct room references of the filtered
  bookings are no more than the active rooms. The rate is \<open>Math.round\<close> of the percentage
  of the distinct room references over the active rooms, the quotient and the product
  each rounded to a double.
\<close>

theorem occupancyRate_within_0_100:
  assumes "processGraphQLData selectedHotel random getHotels rooms bs dateRange = Inr d"
    and "0 < length (filter isActive rooms)"
  shows "0 \<le> occupancyRate (overview d)
       \<and> (card (roomId ` set (recentBookings d)) \<le> length (filter isActive rooms)
            \<longrightarrow> occupancyRate (overview d) \<le> 100)
       \<and> occupancyRate (overview d)
            = Math_round (fmul (fdiv (real (card (roomId ` set (recentBookings d))))
                                  (real (length (filter isActive rooms)))) 100)"
proof -
  from assms(1) obtain dateFrom dateTo hotel
    where d: "d = dashboardData hotel random rooms bs dateFrom dateTo"
    by (rule processGraphQLData_Inr)
  have occ: "occupancyRate (overview d) = occupancyRate_of rooms (recentBookings d)"
    by (simp add: d dashboardData_overview dashboardData_lists)
  have "0 \<le> occupancyRate (overview d)"
    unfolding occ by (rule occupancyRate_of_bounds)
  moreover have "card (roomId ` set (recentBookings d)) \<le> length (filter isActive rooms)
            \<longrightarrow> occupancyRate (overview d) \<le> 100"
    unfolding occ using occupancyRate_of_bounds(2) [of "recentBookings d" rooms]
    by (simp add: occupiedRooms_image activeRooms_def)
  moreover have "occupancyRate (overview d)
            = Math_round (fmul (fdiv (real (card (roomId ` set (recentBookings d))))
                                  (real (length (filter isActive rooms)))) 100)"
    unfolding occ using assms(2)
    by (simp add: occupancyRate_of_def occupiedRooms_image activeRooms_def)
  ultimately show ?thesis by blast
qed

theorem occupancyRate_within_0_100_witness:
  "\<exists>d. processGraphQLData None (constDraws 0) [exHotel] [exRoom ''101'' True, exRoom ''102'' True]
          [exBooking ''101'' ''a@x.org'' (Some (day 10)) (Some (day 12)) (Some 300)]
          (exRange (day 10) (day 11)) = Inr d
      \<and> 0 < length (filter isActive [exRoom ''101'' True, exRoom ''102'' True])
      \<and> card (roomId ` set (recentBookings d))
           \<le> length (filter isActive [exRoom ''101'' True, exRoom ''102'' True])
      \<and> 0 \<le> occupancyRate (overview d) \<and> occupancyRate (overview d) \<le> 100
      \<and> occupancyRate (overview d) = 50"
proof -
  let ?rooms = "[exRoom ''101'' True, exRoom ''102'' True]"
  let ?bs = "[exBooking ''101'' ''a@x.org'' (Some (day 10)) (Some (day 12)) (Some 300)]"
  obtain h where run: "processGraphQLData None (constDraws 0) [exHotel] ?rooms ?bs (exRange (day 10) (day 11))
       = Inr (dashboardData h (constDraws 0) ?rooms ?bs (day 10) (day 11))"
    using ex_run by blast
  let ?d = "dashboardData h (constDraws 0) ?rooms ?bs (day 10) (day 11)"
  have act: "0 < length (filter isActive ?rooms)" by (simp add: exRoom_def)
  have rb: "recentBookings ?d = ?bs"
    by (simp add: dashboardData_lists ex_filter_in filteredBookings_Nil day_def msPerDay_def)
  have c: "card (roomId ` set (recentBookings ?d)) \<le> length (filter isActive ?rooms)"
    unfolding rb by (simp add: exRoom_def)
  have v: "Math_round (fmul (fdiv (real (card (roomId ` set (recentBookings ?d))))
                                  (real (length (filter isActive ?rooms)))) 100) = 50"
    unfolding rb
    by (simp add: exRoom_def Math_round_def fdiv_def fmul_def roundDouble_half roundDouble_numeral)
  from occupancyRate_within_0_100 [OF run act] c v run act show ?thesis
    by (intro exI [of _ ?d]) simp
qed

text \<open>
  The bound of 100 does not hold for every input: one active room and two filtered bookings
  that refer to two different rooms give an occupancy rate of 200.
\<close>

theorem occupancyRate_counterexample:
  "length (filter isActive [exRoom ''101'' True]) = 1
   \<and> map_sum id (occupancyRate \<circ> overview)
       (processGraphQLData None (constDraws 0) [exHotel] [exRoom ''101'' True]
          [exBooking ''101'' ''a@x.org'' (Some (day 10)) (Some (day 11)) (Some 100),
           exBooking ''102'' ''b@x.org'' (Some (day 10)) (Some (day 11)) (Some 100)]
          (exRange (day 10) (day 11))) = Inr 200"
proof -
  let ?bs = "[exBooking ''101'' ''a@x.org'' (Some (day 10)) (Some (day 11)) (Some 100),
              exBooking ''102'' ''b@x.org'' (Some (day 10)) (Some (day 11)) (Some 100)]"
  have f: "filteredBookings ?bs (day 10) (day 11) = ?bs"
    by (simp add: ex_filter_in filteredBookings_Nil day_def msPerDay_def)
  have o: "occupancyRate_of [exRoom ''101'' True] ?bs = 200"
    by (simp add: occupancyRate_of_def activeRooms_def occupiedRooms_def Math_round_def
        exRoom_def exBooking_def fdiv_def fmul_def roundDouble_numeral)
  obtain h where run: "processGraphQLData None (constDraws 0) [exHotel] [exRoom ''101'' True] ?bs
         (exRange (day 10) (day 11))
       = Inr (dashboardData h (constDraws 0) [exRoom ''101'' True] ?bs (day 10) (day 11))"
    using ex_run by blast
  show ?thesis
    by (simp add: run dashboardData_overview f o) (simp add: exRoom_def)
qed

section \<open>Dashboard: revenue sums\<close>

lemma totalRevenue_of_insert:
  assumes "amountOrZero (totalAmount b) = 0"
  shows "totalRevenue_of (xs @ b # ys) = totalRevenue_of (xs @ ys)"
proof -
  have "totalRevenue_of (xs @ [b]) = totalRevenue_of xs"
    by (simp add: totalRevenue_of_snoc assms fadd_zero_right)
  then have "totalRevenue_of ((xs @ [b]) @ ys) = totalRevenue_of (xs @ ys)"
    by (simp only: totalRevenue_of_append)
  then show ?thesis by simp
qed

lemma totalRevenue_of_filter_insert:
  assumes "amountOrZero (totalAmount b) = 0"
  shows "totalRevenue_of (filter P (xs @ b # ys)) = totalRevenue_of (filter P (xs @ ys))"
  using totalRevenue_of_insert [OF assms, of "filter P xs" "filter P ys"] by simp

lemma processGraphQLData_totalRevenue:
  "map_sum id (totalRevenue \<circ> overview)
     (processGraphQLData selectedHotel random getHotels rooms bs dateRange)
   = (case (range_from dateRange, range_to dateRange) of
        (Some dateFrom, Some dateTo) \<Rightarrow>
          (case hotel_of selectedHotel getHotels of
             None \<Rightarrow> Inl TypeError
           | Some hotel \<Rightarrow> Inr (totalRevenue_of (filteredBookings bs dateFrom dateTo)))
      | _ \<Rightarrow> Inl InvalidDateRange)"
  by (simp add: processGraphQLData_def dashboardData_overview split: option.splits)

text \<open>
  C9. Adding a booking whose amount counts as 0 (\<open>Number(totalAmount) || 0\<close> is 0) anywhere
  in the booking list leaves the revenue sums unchanged: the sum over the filtered
  bookings, the sum over the previous-period bookings, and the \<open>totalRevenue\<close> that
  \<open>processGraphQLData\<close> returns (or the error it throws). The sums are the left-to-right
  sums in double arithmetic, in which adding 0 to a double is exact.
\<close>

theorem zero_amount_booking_identity:
  assumes "amountOrZero (totalAmount b) = 0"
  shows "totalRevenue_of (filteredBookings (xs @ b # ys) dateFrom dateTo)
           = totalRevenue_of (filteredBookings (xs @ ys) dateFrom dateTo)
       \<and> totalRevenue_of (previousPeriodBookings (xs @ b # ys) dateFrom dateTo)
           = totalRevenue_of (previousPeriodBookings (xs @ ys) dateFrom dateTo)
       \<and> map_sum id (totalRevenue \<circ> overview)
            (processGraphQLData selectedHotel random getHotels rooms (xs @ b # ys) dateRange)
           = map_sum id (totalRevenue \<circ> overview)
               (processGraphQLData selectedHotel random getHotels rooms (xs @ ys) dateRange)"
proof -
  have a: "totalRevenue_of (filteredBookings (xs @ b # ys) f t)
             = totalRevenue_of (filteredBookings (xs @ ys) f t)" for f t
    unfolding filteredBookings_def by (rule totalRevenue_of_filter_insert [OF assms])
  have b: "totalRevenue_of (previousPeriodBookings (xs @ b # ys) dateFrom dateTo)
             = totalRevenue_of (previousPeriodBookings (xs @ ys) dateFrom dateTo)"
    unfolding previousPeriodBookings_def by (rule totalRevenue_of_filter_insert [OF assms])
  have c: "map_sum id (totalRevenue \<circ> overview)
            (processGraphQLData selectedHotel random getHotels rooms (xs @ b # ys) dateRange)
           = map_sum id (totalRevenue \<circ> overview)
               (processGraphQLData selectedHotel random getHotels rooms (xs @ ys) dateRange)"
    unfolding processGraphQLData_totalRevenue by (simp add: a split: option.splits)
  from a b c show ?thesis by blast
qed

theorem zero_amount_booking_identity_witness:
  "amountOrZero (totalAmount (exBooking ''102'' ''b@x.org'' (Some (day 9)) (Some (day 11)) (Some 0))) = 0
   \<and> totalRevenue_of (filteredBookings
        ([exBooking ''101'' ''a@x.org'' (Some (day 10)) (Some (day 11)) (Some 100),
          exBooking ''103'' ''c@x.org'' (Some (day 9)) (Some (day 10)) (Some 70)]
          @ exBooking ''102'' ''b@x.org'' (Some (day 9)) (Some (day 11)) (Some 0) # [])
        (day 10) (day 11)) = 100
   \<and> totalRevenue_of (previousPeriodBookings
        ([exBooking ''101'' ''a@x.org'' (Some (day 10)) (Some (day 11)) (Some 100),
          exBooking ''103'' ''c@x.org'' (Some (day 9)) (Some (day 10)) (Some 70)]
          @ exBooking ''102'' ''b@x.org'' (Some (day 9)) (Some (day 11)) (Some 0) # [])
        (day 10) (day 11)) = 70"
proof -
  let ?b = "exBooking ''102'' ''b@x.org'' (Some (day 9)) (Some (day 11)) (Some 0)"
  let ?xs = "[exBooking ''101'' ''a@x.org'' (Some (day 10)) (Some (day 11)) (Some 100),
              exBooking ''103'' ''c@x.org'' (Some (day 9)) (Some (day 10)) (Some 70)]"
  have z: "amountOrZero (totalAmount ?b) = 0"
    by (simp add: exBooking_def amountOrZero_def)
  have f: "totalRevenue_of (filteredBookings (?xs @ []) (day 10) (day 11)) = 100"
    by (simp add: ex_filter_in ex_filter_out filteredBookings_Nil day_def msPerDay_def)
       (simp add: totalRevenue_of_def exBooking_def amountOrZero_def fadd_def roundDouble_numeral)
  have p: "totalRevenue_of (previousPeriodBookings (?xs @ []) (day 10) (day 11)) = 70"
    by (simp add: previousPeriodBookings_def previousPeriodStart_def previousPeriodEnd_def
        subDays_def TimeClip_def dateWithin_def day_def msPerDay_def exBooking_def
        totalRevenue_of_def amountOrZero_def fadd_def roundDouble_numeral)
  from zero_amount_booking_identity [OF z, of ?xs "[]" "day 10" "day 11"] z f p
  show ?thesis by simp
qed

section \<open>Dashboard: average daily rate\<close>

lemma filteredBookings_valid:
  assumes "b \<in> set (filteredBookings bs dateFrom dateTo)"
  shows "\<exists>c. checkInDate b = Some c \<and> dateFrom \<le> c \<and> c \<le> dateTo"
  using assms by (auto simp: filteredBookings_def dateWithin_def split: option.splits)

lemma Math_ceil_ceiling: "Math_ceil x = \<lceil>x\<rceil>"
  by (simp add: Math_ceil_def ceiling_def)

lemma nightsOf_max:
  "checkInDate b = Some checkIn \<Longrightarrow> checkOutDate b = Some checkOut \<Longrightarrow>
   nightsOf b = max 1 \<lceil>fdiv (fsub (real_of_int checkOut) (real_of_int checkIn))
                        (real_of_int msPerDay)\<rceil>"
  by (simp add: nightsOf_def Let_def Math_ceil_ceiling max_def)

lemma nightsOf_invalid: "checkInDate b = None \<or> checkOutDate b = None \<Longrightarrow> nightsOf b = 1"
  by (auto simp: nightsOf_def split: option.splits)

lemma nightsOf_pos: "1 \<le> nightsOf b"
  by (simp add: nightsOf_def Let_def split: option.splits)

lemma totalNights_nonneg: "0 \<le> totalNights bs"
proof (induction bs rule: rev_induct)
  case Nil
  then show ?case by simp
next
  case (snoc b bs)
  with nightsOf_pos [of b] show ?case
    unfolding totalNights_snoc by (intro fadd_nonneg) simp_all
qed

lemma totalNights_ge_one:
  assumes "bs \<noteq> []"
  shows "1 \<le> totalNights bs"
proof -
  from assms obtain b bs' where bs: "bs = bs' @ [b]" by (cases bs rule: rev_cases) auto
  from totalNights_nonneg [of bs'] nightsOf_pos [of b]
  have "real_of_int 1 \<le> totalNights bs' + real_of_int (nightsOf b)" by simp
  then have "real_of_int 1 \<le> roundDouble (totalNights bs' + real_of_int (nightsOf b))"
    by (rule roundDouble_ge_int) simp
  then show ?thesis by (simp add: bs totalNights_snoc fadd_def)
qed

lemma totalNights_zero_iff: "totalNights bs = 0 \<longleftrightarrow> bs = []"
proof
  assume z: "totalNights bs = 0"
  show "bs = []"
  proof (rule ccontr)
    assume "bs \<noteq> []"
    then have "1 \<le> totalNights bs" by (rule totalNights_ge_one)
    with z show False by simp
  qed
next
  assume "bs = []"
  then show "totalNights bs = 0" by simp
qed

text \<open>
  C4 (as amended). The average daily rate of the overview is \<open>Math.round\<close> of the total
  revenue of the filtered bookings divided by their total room-nights, both totals being
  the left-to-right sums in double arithmetic and the quotient rounded to a double. Each
  filtered booking adds \<open>max(1, ceil(nights))\<close> room-nights, \<open>nights\<close> being the double
  quotient of check-out minus check-in by the milliseconds of a day, and 1 when its
  check-out date is invalid. The rate is 0 when the total of room-nights is 0, which is
  the case exactly when no booking is filtered.
\<close>

theorem averageDailyRate_rounded_quotient:
  fixes d :: DashboardData
  defines "roomNights \<equiv> foldl (\<lambda>sum b. fadd sum (real_of_int (nightsOf b))) 0 (recentBookings d)"
  assumes "processGraphQLData selectedHotel random getHotels rooms bs dateRange = Inr d"
  shows "averageDailyRate (overview d)
           = (if roomNights = 0 then 0
              else Math_round (fdiv (totalRevenue (overview d)) roomNights))
       \<and> totalRevenue (overview d)
           = foldl (\<lambda>sum b. fadd sum (amountOrZero (totalAmount b))) 0 (recentBookings d)
       \<and> (\<forall>b \<in> set (recentBookings d). \<exists>checkIn. checkInDate b = Some checkIn \<and>
            nightsOf b =
              (case checkOutDate b of
                 None \<Rightarrow> 1
               | Some checkOut \<Rightarrow>
                   max 1 \<lceil>fdiv (fsub (real_of_int checkOut) (real_of_int checkIn))
                            (real_of_int msPerDay)\<rceil>))
       \<and> (roomNights = 0 \<longleftrightarrow> recentBookings d = [])"
proof -
  from assms(2) obtain dateFrom dateTo hotel
    where d: "d = dashboardData hotel random rooms bs dateFrom dateTo"
    by (rule processGraphQLData_Inr)
  let ?f = "filteredBookings bs dateFrom dateTo"
  have rb: "recentBookings d = ?f" by (simp add: d dashboardData_lists)
  have rn: "roomNights = totalNights (recentBookings d)"
    by (simp add: roomNights_def totalNights_def)
  have adr: "averageDailyRate (overview d)
           = (if roomNights = 0 then 0
              else Math_round (fdiv (totalRevenue (overview d)) roomNights))"
    unfolding rn by (simp add: d dashboardData_overview dashboardData_lists averageDailyRate_of_def)
  have rev: "totalRevenue (overview d)
           = foldl (\<lambda>sum b. fadd sum (amountOrZero (totalAmount b))) 0 (recentBookings d)"
    by (simp add: d dashboardData_overview dashboardData_lists totalRevenue_of_def)
  have nights: "\<exists>checkIn. checkInDate b = Some checkIn \<and>
            nightsOf b =
              (case checkOutDate b of
                 None \<Rightarrow> 1
               | Some checkOut \<Rightarrow>
                   max 1 \<lceil>fdiv (fsub (real_of_int checkOut) (real_of_int checkIn))
                            (real_of_int msPerDay)\<rceil>)"
    if "b \<in> set (recentBookings d)" for b
  proof -
    from that rb filteredBookings_valid obtain c where c: "checkInDate b = Some c" by metis
    show ?thesis
    proof (cases "checkOutDate b")
      case None
      with c nightsOf_invalid [of b] show ?thesis by simp
    next
      case (Some co)
      with c nightsOf_max [of b c co] show ?thesis by simp
    qed
  qed
  have zero: "roomNights = 0 \<longleftrightarrow> recentBookings d = []"
    unfolding rn by (rule totalNights_zero_iff)
  from adr rev nights zero show ?thesis by blast
qed

lemma ex_nights:
  "nightsOf (exBooking r e (Some ci) (Some co) a)
     = (if Math_ceil (fdiv (fsub (real_of_int co) (real_of_int ci)) (real_of_int msPerDay)) > 0
        then Math_ceil (fdiv (fsub (real_of_int co) (real_of_int ci)) (real_of_int msPerDay))
        else 1)"
  "nightsOf (exBooking r e cio None a) = 1"
  by (simp_all add: nightsOf_def exBooking_def Let_def split: option.splits)

lemma ex_amount: "amountOrZero (totalAmount (exBooking r e ci co (Some a))) = roundDouble a"
  by (simp add: exBooking_def amountOrZero_def)

text \<open>The double nearest to 100 / 3, which \<open>Math.round\<close> takes to 33.\<close>

lemma fdiv_100_3: "fdiv 100 3 = 4691249611844267 / 2 ^ 47"
  unfolding fdiv_def
  using roundDouble_eval [of 5 "100 / 3" 4691249611844267]
  by (simp add: two_powr_neg_numeral)

lemma ex_three_nights:
  "totalNights [exBooking r e (Some (day 10)) (Some (day 13)) a] = 3"
  by (simp add: totalNights_def ex_nights Math_ceil_def day_def msPerDay_def fsub_def fdiv_def
      fadd_def roundDouble_numeral)

lemma ex_revenue_100: "totalRevenue_of [exBooking r e ci co (Some 100)] = 100"
  by (simp add: totalRevenue_of_def ex_amount fadd_def roundDouble_numeral)

theorem averageDailyRate_rounded_quotient_witness:
  "\<exists>d. processGraphQLData None (constDraws 0) [exHotel] [exRoom ''101'' True]
          [exBooking ''101'' ''a@x.org'' (Some (day 10)) (Some (day 13)) (Some 100),
           exBooking ''101'' ''a@x.org'' (Some (day 20)) (Some (day 21)) (Some 80)]
          (exRange (day 10) (day 11)) = Inr d
      \<and> recentBookings d = [exBooking ''101'' ''a@x.org'' (Some (day 10)) (Some (day 13)) (Some 100)]
      \<and> foldl (\<lambda>sum b. fadd sum (real_of_int (nightsOf b))) 0 (recentBookings d) = 3
      \<and> totalRevenue (overview d) = 100
      \<and> averageDailyRate (overview d) = 33"
proof -
  let ?rooms = "[exRoom ''101'' True]"
  let ?b = "exBooking ''101'' ''a@x.org'' (Some (day 10)) (Some (day 13)) (Some 100)"
  let ?bs = "[?b, exBooking ''101'' ''a@x.org'' (Some (day 20)) (Some (day 21)) (Some 80)]"
  obtain h where run: "processGraphQLData None (constDraws 0) [exHotel] ?rooms ?bs (exRange (day 10) (day 11))
       = Inr (dashboardData h (constDraws 0) ?rooms ?bs (day 10) (day 11))"
    using ex_run by blast
  let ?d = "dashboardData h (constDraws 0) ?rooms ?bs (day 10) (day 11)"
  have rb: "recentBookings ?d = [?b]"
    by (simp add: dashboardData_lists ex_filter_in ex_filter_out filteredBookings_Nil
        day_def msPerDay_def)
  have n: "foldl (\<lambda>sum b. fadd sum (real_of_int (nightsOf b))) 0 (recentBookings ?d) = 3"
    unfolding rb using ex_three_nights [of "''101''" "''a@x.org''" "Some 100"]
    by (simp only: totalNights_def)
  have r: "foldl (\<lambda>sum b. fadd sum (amountOrZero (totalAmount b))) 0 (recentBookings ?d) = 100"
    unfolding rb using ex_revenue_100 [of "''101''" "''a@x.org''" "Some (day 10)" "Some (day 13)"]
    by (simp only: totalRevenue_of_def)
  have v: "Math_round (fdiv 100 3) = 33" by (simp add: fdiv_100_3 Math_round_def)
  from averageDailyRate_rounded_quotient [OF run] have
    a: "averageDailyRate (overview ?d)
          = (if foldl (\<lambda>sum b. fadd sum (real_of_int (nightsOf b))) 0 (recentBookings ?d) = 0 then 0
             else Math_round (fdiv (totalRevenue (overview ?d))
                    (foldl (\<lambda>sum b. fadd sum (real_of_int (nightsOf b))) 0 (recentBookings ?d))))"
    and t: "totalRevenue (overview ?d)
          = foldl (\<lambda>sum b. fadd sum (amountOrZero (totalAmount b))) 0 (recentBookings ?d)"
    by blast+
  from t r have t100: "totalRevenue (overview ?d) = 100" by simp
  from a have a33: "averageDailyRate (overview ?d) = 33" unfolding n t100 using v by simp
  from run rb n t100 a33 show ?thesis by blast
qed

text \<open>
  Without the rounding the equation fails: one filtered booking of 100 over three nights has
  an average daily rate of 33, which is neither 100 / 3 nor the double nearest to it.
\<close>

theorem averageDailyRate_counterexample:
  "map_sum id (averageDailyRate \<circ> overview)
     (processGraphQLData None (constDraws 0) [exHotel] [exRoom ''101'' True]
        [exBooking ''101'' ''a@x.org'' (Some (day 10)) (Some (day 13)) (Some 100)]
        (exRange (day 10) (day 11))) = Inr 33
   \<and> map_sum id (totalRevenue \<circ> overview)
     (processGraphQLData None (constDraws 0) [exHotel] [exRoom ''101'' True]
        [exBooking ''101'' ''a@x.org'' (Some (day 10)) (Some (day 13)) (Some 100)]
        (exRange (day 10) (day 11))) = Inr 100
   \<and> totalNights (filteredBookings
        [exBooking ''101'' ''a@x.org'' (Some (day 10)) (Some (day 13)) (Some 100)]
        (day 10) (day 11)) = 3
   \<and> real_of_int 33 \<noteq> 100 / real_of_int 3
   \<and> real_of_int 33 \<noteq> fdiv 100 3"
proof -
  let ?rooms = "[exRoom ''101'' True]"
  let ?bs = "[exBooking ''101'' ''a@x.org'' (Some (day 10)) (Some (day 13)) (Some 100)]"
  obtain h where run: "processGraphQLData None (constDraws 0) [exHotel] ?rooms ?bs (exRange (day 10) (day 11))
       = Inr (dashboardData h (constDraws 0) ?rooms ?bs (day 10) (day 11))"
    using ex_run by blast
  have f: "filteredBookings ?bs (day 10) (day 11) = ?bs"
    by (simp add: ex_filter_in filteredBookings_Nil day_def msPerDay_def)
  have n: "totalNights ?bs = 3" by (rule ex_three_nights)
  have r: "totalRevenue_of ?bs = 100" by (rule ex_revenue_100)
  have a: "averageDailyRate_of ?bs = 33"
    by (simp add: averageDailyRate_of_def n r fdiv_100_3 Math_round_def)
  have q: "real_of_int 33 \<noteq> fdiv 100 3" by (simp add: fdiv_100_3)
  show ?thesis
    using q by (simp add: run dashboardData_overview f n r a)
qed

section \<open>Dashboard: revenue per available room and the one-booking example\<close>

lemma Math_ceil_one:
  assumes "0 < x" "x \<le> 1"
  shows "Math_ceil x = 1"
  unfolding Math_ceil_ceiling using assms by (simp add: ceiling_eq_iff)

lemma Math_ceil_le_zero: "x \<le> 0 \<Longrightarrow> Math_ceil x \<le> 0"
  unfolding Math_ceil_ceiling by (simp add: ceiling_le_zero)

lemma Math_ceil_zero [simp]: "Math_ceil 0 = 0"
  by (simp add: Math_ceil_def)

lemma days_at_most_one:
  assumes "0 < b - a" "b - a \<le> msPerDay"
  shows "0 < fdiv (fsub (real_of_int b) (real_of_int a)) (real_of_int msPerDay)"
    and "fdiv (fsub (real_of_int b) (real_of_int a)) (real_of_int msPerDay) \<le> 1"
proof -
  let ?r = "fsub (real_of_int b) (real_of_int a)"
  have ms: "real_of_int msPerDay = 86400000" by (simp add: msPerDay_def)
  from assms(1) have "real_of_int 1 \<le> real_of_int b - real_of_int a" by linarith
  then have "real_of_int 1 \<le> roundDouble (real_of_int b - real_of_int a)"
    by (rule roundDouble_ge_int) simp
  then have lo: "1 \<le> ?r" by (simp add: fsub_def)
  from assms(2) have "real_of_int b - real_of_int a \<le> real_of_int 86400000"
    by (simp add: msPerDay_def)
  then have "roundDouble (real_of_int b - real_of_int a) \<le> real_of_int 86400000"
    by (rule roundDouble_le_int) simp
  then have hi: "?r \<le> 86400000" by (simp add: fsub_def)
  have "real_of_int 1 * 2 powr real_of_int (- 27) \<le> ?r / 86400000"
    using lo by (simp add: two_powr_neg_numeral)
  then have "roundDouble (real_of_int 1 * 2 powr real_of_int (- 27)) \<le> roundDouble (?r / 86400000)"
    by (rule roundDouble_mono)
  moreover have "roundDouble (real_of_int 1 * 2 powr real_of_int (- 27))
      = real_of_int 1 * 2 powr real_of_int (- 27)"
    by (rule roundDouble_dyadic) simp_all
  ultimately have "0 < roundDouble (?r / 86400000)" by (simp add: two_powr_neg_numeral)
  then show "0 < fdiv ?r (real_of_int msPerDay)" by (simp add: fdiv_def ms)
  from hi have "?r / 86400000 \<le> real_of_int 1" by simp
  then have "roundDouble (?r / 86400000) \<le> real_of_int 1"
    by (rule roundDouble_le_int) simp
  then show "fdiv ?r (real_of_int msPerDay) \<le> 1" by (simp add: fdiv_def ms)
qed

lemma days_at_most_zero:
  assumes "b - a \<le> (0::int)"
  shows "fdiv (fsub (real_of_int b) (real_of_int a)) (real_of_int msPerDay) \<le> 0"
proof -
  let ?r = "fsub (real_of_int b) (real_of_int a)"
  from assms have "real_of_int b - real_of_int a \<le> real_of_int 0" by simp
  then have "roundDouble (real_of_int b - real_of_int a) \<le> real_of_int 0"
    by (rule roundDouble_le_int) simp
  then have "?r / real_of_int msPerDay \<le> real_of_int 0"
    by (simp add: fsub_def msPerDay_def)
  then have "roundDouble (?r / real_of_int msPerDay) \<le> real_of_int 0"
    by (rule roundDouble_le_int) simp
  then show ?thesis by (simp add: fdiv_def)
qed

lemma nightsOf_one_day:
  assumes "checkInDate b = Some checkIn"
    and "checkOutDate b = None \<or> (\<exists>checkOut. checkOutDate b = Some checkOut
           \<and> checkOut - checkIn \<le> msPerDay)"
  shows "nightsOf b = 1"
proof (cases "checkOutDate b")
  case None
  then show ?thesis by (intro nightsOf_invalid) simp
next
  case (Some checkOut)
  with assms(2) have le: "checkOut - checkIn \<le> msPerDay" by simp
  let ?x = "fdiv (fsub (real_of_int checkOut) (real_of_int checkIn)) (real_of_int msPerDay)"
  show ?thesis
  proof (cases "0 < checkOut - checkIn")
    case True
    then have "Math_ceil ?x = 1" using le by (intro Math_ceil_one days_at_most_one)
    with assms(1) Some show ?thesis by (simp add: nightsOf_def)
  next
    case False
    then have "Math_ceil ?x \<le> 0" by (intro Math_ceil_le_zero days_at_most_zero) simp
    with assms(1) Some show ?thesis by (simp add: nightsOf_def Let_def)
  qed
qed

lemma totalRoomNights_same_instant: "totalRoomNights rooms t t = 0"
  by (simp add: totalRoomNights_def fmul_def)

lemma totalRoomNights_one_day:
  assumes "0 < dateTo - dateFrom" "dateTo - dateFrom \<le> msPerDay" "activeRooms rooms = 1"
  shows "totalRoomNights rooms dateFrom dateTo = 1"
proof -
  have "Math_ceil (fdiv (fsub (real_of_int dateTo) (real_of_int dateFrom)) (real_of_int msPerDay)) = 1"
    using assms(1,2) by (intro Math_ceil_one days_at_most_one)
  then show ?thesis by (simp add: totalRoomNights_def assms(3) fmul_def)
qed

lemma one_booking_values:
  assumes "totalAmount b = Some 100" "nightsOf b = 1" "activeRooms rooms = 1"
  shows "totalRevenue_of [b] = 100" and "totalNights [b] = 1"
    and "occupancyRate_of rooms [b] = 100" and "averageDailyRate_of [b] = 100"
proof -
  show rev: "totalRevenue_of [b] = 100"
    using assms(1) by (simp add: totalRevenue_of_def amountOrZero_def fadd_def roundDouble_numeral)
  show n: "totalNights [b] = 1"
    using assms(2) by (simp add: totalNights_def fadd_def)
  have r: "Math_round 100 = 100" by (simp add: Math_round_def)
  show "occupancyRate_of rooms [b] = 100"
    using r by (simp add: occupancyRate_of_def assms(3) occupiedRooms_def fdiv_def fmul_def
        roundDouble_numeral)
  show "averageDailyRate_of [b] = 100"
    using r by (simp add: averageDailyRate_of_def rev n fdiv_def roundDouble_numeral)
qed

text \<open>
  C5 (as amended). The revenue per available room of the overview is 0 when the product of
  the number of active rooms and \<open>Math.ceil\<close> of the length of the date range in days is 0,
  and otherwise \<open>Math.round\<close> of the total revenue of the filtered bookings divided by that
  product (product and quotient rounded to a double). For one booking with \<open>totalAmount\<close>
  100, one active room and a date range that contains the check-in and whose ends are
  more than 0 and at most one day apart, \<open>occupancyRate\<close>, \<open>averageDailyRate\<close> and \<open>revPAR\<close>
  are all 100 when the booking counts for one night (no check-out date, or a check-out at
  most one day after the check-in). When the two ends of the range are the same instant,
  the range has 0 days and \<open>revPAR\<close> is 0.
\<close>

theorem one_booking_one_room_one_day:
  fixes d :: DashboardData
  defines "filteredRevenue \<equiv> foldl (\<lambda>sum b. fadd sum (amountOrZero (totalAmount b))) 0 (recentBookings d)"
  assumes "processGraphQLData selectedHotel random getHotels rooms bs dateRange = Inr d"
    and "range_from dateRange = Some dateFrom" and "range_to dateRange = Some dateTo"
  defines "rangeDays \<equiv> Math_ceil (fdiv (fsub (real_of_int dateTo) (real_of_int dateFrom))
                                (real_of_int msPerDay))"
  defines "roomNights \<equiv> fmul (real (length (filter isActive rooms))) (real_of_int rangeDays)"
  shows "revPAR (overview d)
           = (if roomNights = 0 then 0 else Math_round (fdiv filteredRevenue roomNights))
       \<and> (dateFrom = dateTo \<longrightarrow> revPAR (overview d) = 0)
       \<and> (bs = [b] \<and> 0 < dateTo - dateFrom \<and> dateTo - dateFrom \<le> msPerDay
            \<and> checkInDate b = Some checkIn \<and> dateFrom \<le> checkIn \<and> checkIn \<le> dateTo
            \<and> (checkOutDate b = None \<or> (\<exists>checkOut. checkOutDate b = Some checkOut
                  \<and> checkOut - checkIn \<le> msPerDay))
            \<and> totalAmount b = Some 100
            \<and> length (filter isActive rooms) = 1
          \<longrightarrow> occupancyRate (overview d) = 100 \<and> averageDailyRate (overview d) = 100
            \<and> revPAR (overview d) = 100)"
proof -
  from assms(2) obtain f t hotel
    where "range_from dateRange = Some f" "range_to dateRange = Some t"
      and "d = dashboardData hotel random rooms bs f t"
    by (rule processGraphQLData_Inr)
  with assms(3,4) have d: "d = dashboardData hotel random rooms bs dateFrom dateTo" by simp
  have rev: "filteredRevenue = totalRevenue_of (filteredBookings bs dateFrom dateTo)"
    by (simp add: filteredRevenue_def d dashboardData_lists totalRevenue_of_def)
  have rn: "roomNights = totalRoomNights rooms dateFrom dateTo"
    by (simp add: roomNights_def rangeDays_def totalRoomNights_def activeRooms_def)
  have general: "revPAR (overview d)
           = (if roomNights = 0 then 0 else Math_round (fdiv filteredRevenue roomNights))"
    unfolding rev rn by (simp add: d dashboardData_overview revPAR_of_def)
  have same: "revPAR (overview d) = 0" if "dateFrom = dateTo"
    using that by (simp add: d dashboardData_overview revPAR_of_def totalRoomNights_same_instant)
  have example: "occupancyRate (overview d) = 100 \<and> averageDailyRate (overview d) = 100
            \<and> revPAR (overview d) = 100"
    if h: "bs = [b]" "0 < dateTo - dateFrom" "dateTo - dateFrom \<le> msPerDay"
      "checkInDate b = Some checkIn" "dateFrom \<le> checkIn" "checkIn \<le> dateTo"
      "checkOutDate b = None \<or> (\<exists>checkOut. checkOutDate b = Some checkOut
                  \<and> checkOut - checkIn \<le> msPerDay)"
      "totalAmount b = Some 100" "length (filter isActive rooms) = 1"
  proof -
    have f: "filteredBookings [b] dateFrom dateTo = [b]"
      using h(4,5,6) by (simp add: filteredBookings_def dateWithin_def)
    have act: "activeRooms rooms = 1" using h(9) by (simp add: activeRooms_def)
    have nights: "nightsOf b = 1" using h(4,7) by (rule nightsOf_one_day)
    note v = one_booking_values [OF h(8) nights act]
    have trn: "totalRoomNights rooms dateFrom dateTo = 1"
      using h(2,3) act by (rule totalRoomNights_one_day)
    have r: "Math_round 100 = 100" by (simp add: Math_round_def)
    have rp: "revPAR_of rooms [b] dateFrom dateTo = 100"
      using r by (simp add: revPAR_of_def trn v(1) fdiv_def roundDouble_numeral)
    show ?thesis by (simp add: d h(1) dashboardData_overview f v(3,4) rp)
  qed
  from general same example show ?thesis by blast
qed

theorem one_booking_one_room_one_day_witness:
  "\<exists>d. processGraphQLData None (constDraws 0) [exHotel] [exRoom ''101'' True]
          [exBooking ''101'' ''a@x.org'' (Some (day 1)) None (Some 100)]
          (exRange (day 1) (day 2)) = Inr d
      \<and> occupancyRate (overview d) = 100 \<and> averageDailyRate (overview d) = 100
      \<and> revPAR (overview d) = 100"
proof -
  let ?rooms = "[exRoom ''101'' True]"
  let ?b = "exBooking ''101'' ''a@x.org'' (Some (day 1)) None (Some 100)"
  obtain h where run: "processGraphQLData None (constDraws 0) [exHotel] ?rooms [?b] (exRange (day 1) (day 2))
       = Inr (dashboardData h (constDraws 0) ?rooms [?b] (day 1) (day 2))"
    using ex_run by blast
  have hyp: "[?b] = [?b] \<and> 0 < day 2 - day 1 \<and> day 2 - day 1 \<le> msPerDay
            \<and> checkInDate ?b = Some (day 1) \<and> day 1 \<le> day 1 \<and> day 1 \<le> day 2
            \<and> (checkOutDate ?b = None \<or> (\<exists>checkOut. checkOutDate ?b = Some checkOut
                  \<and> checkOut - day 1 \<le> msPerDay))
            \<and> totalAmount ?b = Some 100
            \<and> length (filter isActive ?rooms) = 1"
    by (simp add: exBooking_def exRoom_def day_def msPerDay_def)
  have "occupancyRate (overview (dashboardData h (constDraws 0) ?rooms [?b] (day 1) (day 2))) = 100
     \<and> averageDailyRate (overview (dashboardData h (constDraws 0) ?rooms [?b] (day 1) (day 2))) = 100
     \<and> revPAR (overview (dashboardData h (constDraws 0) ?rooms [?b] (day 1) (day 2))) = 100"
    using one_booking_one_room_one_day [OF run, of "day 1" "day 2" ?b "day 1"] hyp
    by (simp add: exRange_def)
  with run show ?thesis by blast
qed

text \<open>
  When the one-day range is given by its day alone, both ends being day 1, the same booking
  and room give an occupancy rate and an average daily rate of 100 and a \<open>revPAR\<close> of 0.
\<close>

theorem one_booking_one_room_one_day_counterexample:
  "map_sum id (revPAR \<circ> overview)
     (processGraphQLData None (constDraws 0) [exHotel] [exRoom ''101'' True]
        [exBooking ''101'' ''a@x.org'' (Some (day 1)) None (Some 100)]
        (exRange (day 1) (day 1))) = Inr 0
   \<and> map_sum id (occupancyRate \<circ> overview)
     (processGraphQLData None (constDraws 0) [exHotel] [exRoom ''101'' True]
        [exBooking ''101'' ''a@x.org'' (Some (day 1)) None (Some 100)]
        (exRange (day 1) (day 1))) = Inr 100
   \<and> map_sum id (averageDailyRate \<circ> overview)
     (processGraphQLData None (constDraws 0) [exHotel] [exRoom ''101'' True]
        [exBooking ''101'' ''a@x.org'' (Some (day 1)) None (Some 100)]
        (exRange (day 1) (day 1))) = Inr 100"
proof -
  let ?rooms = "[exRoom ''101'' True]"
  let ?b = "exBooking ''101'' ''a@x.org'' (Some (day 1)) None (Some 100)"
  obtain h where run: "processGraphQLData None (constDraws 0) [exHotel] ?rooms [?b] (exRange (day 1) (day 1))
       = Inr (dashboardData h (constDraws 0) ?rooms [?b] (day 1) (day 1))"
    using ex_run by blast
  have f: "filteredBookings [?b] (day 1) (day 1) = [?b]"
    by (simp add: ex_filter_in filteredBookings_Nil)
  have act: "activeRooms ?rooms = 1" by (simp add: activeRooms_def exRoom_def)
  have n: "nightsOf ?b = 1" by (rule ex_nights)
  have a: "totalAmount ?b = Some 100" by (simp add: exBooking_def)
  note v = one_booking_values [OF a n act]
  have rp: "revPAR_of ?rooms [?b] (day 1) (day 1) = 0"
    by (simp add: revPAR_of_def totalRoomNights_same_instant)
  show ?thesis by (simp add: run dashboardData_overview f v(3,4) rp)
qed

lemma ex_guestStats_step:
  "e \<noteq> [] \<Longrightarrow>
   guestStats_step (c, s, n) (exBooking r e ci co (Some a))
     = (AList.update e ((case map_of c e of None \<Rightarrow> 0 | Some v \<Rightarrow> v) + 1) c,
        AList.update e (fadd (case map_of s e of None \<Rightarrow> 0 | Some v \<Rightarrow> v) (roundDouble a)) s,
        AList.update e ''Ada Byron'' n)"
  by (simp add: guestStats_step_nonempty exBooking_def exGuest_def amountOrZero_def
      trim_def isWhiteSpace_def)

section \<open>Dashboard: top guests\<close>

text \<open>
  C6. \<open>topGuests\<close> has at most 10 items and is sorted in descending order of \<open>totalSpent\<close>.
  It groups the filtered bookings by guest email: the emails of its items are distinct and
  not empty (a booking without an email is skipped), each item carries the number of
  filtered bookings with its email and the sum of their amounts, added from left to right
  in double arithmetic, there are as many items as distinct emails up to 10, and an email
  that is left out has spent no more than any item that is kept.
\<close>

theorem topGuests_grouped_sorted_top10:
  assumes "processGraphQLData selectedHotel random getHotels rooms bs dateRange = Inr d"
  shows "length (topGuests d) \<le> 10
       \<and> sorted_wrt (\<lambda>a b. totalSpent b \<le> totalSpent a) (topGuests d)
       \<and> distinct (map guest_email (topGuests d))
       \<and> (\<forall>g \<in> set (topGuests d).
             guest_email g \<noteq> []
           \<and> bookings g
               = int (length (filter (\<lambda>b. email (guest b) = guest_email g) (recentBookings d)))
           \<and> totalSpent g
               = foldl (\<lambda>sum b. fadd sum (amountOrZero (totalAmount b))) 0
                   (filter (\<lambda>b. email (guest b) = guest_email g) (recentBookings d)))
       \<and> length (topGuests d)
           = min 10 (card {e \<in> (\<lambda>b. email (guest b)) ` set (recentBookings d). e \<noteq> []})
       \<and> (\<forall>e \<in> (\<lambda>b. email (guest b)) ` set (recentBookings d).
             e \<noteq> [] \<and> e \<notin> guest_email ` set (topGuests d) \<longrightarrow>
             (\<forall>g \<in> set (topGuests d).
                foldl (\<lambda>sum b. fadd sum (amountOrZero (totalAmount b))) 0
                  (filter (\<lambda>b. email (guest b) = e) (recentBookings d)) \<le> totalSpent g))"
proof -
  from assms obtain dateFrom dateTo hotel
    where d: "d = dashboardData hotel random rooms bs dateFrom dateTo"
    by (rule processGraphQLData_Inr)
  let ?f = "filteredBookings bs dateFrom dateTo"
  have rb: "recentBookings d = ?f" and tg: "topGuests d = topGuests_of ?f"
    by (simp_all add: d dashboardData_lists)
  have len: "length (topGuests d) \<le> 10"
    unfolding tg by (rule topGuests_of_length)
  have srt: "sorted_wrt (\<lambda>a b. totalSpent b \<le> totalSpent a) (topGuests d)"
    unfolding tg by (rule topGuests_of_sorted)
  have dst: "distinct (map guest_email (topGuests d))"
    unfolding tg by (rule topGuests_of_distinct)
  have ent: "guest_email g \<noteq> []
           \<and> bookings g
               = int (length (filter (\<lambda>b. email (guest b) = guest_email g) (recentBookings d)))
           \<and> totalSpent g
               = foldl (\<lambda>sum b. fadd sum (amountOrZero (totalAmount b))) 0
                   (filter (\<lambda>b. email (guest b) = guest_email g) (recentBookings d))"
    if "g \<in> set (topGuests d)" for g
  proof -
    from that have "g \<in> set (guestItems ?f)"
      using topGuests_of_subset [of ?f] by (auto simp: tg)
    from guestItems_entry [OF this] show ?thesis by (simp add: rb totalRevenue_of_def)
  qed
  have cnt: "length (topGuests d)
           = min 10 (card {e \<in> (\<lambda>b. email (guest b)) ` set (recentBookings d). e \<noteq> []})"
    unfolding tg rb by (rule topGuests_of_count)
  have top: "foldl (\<lambda>sum b. fadd sum (amountOrZero (totalAmount b))) 0
                  (filter (\<lambda>b. email (guest b) = e) (recentBookings d)) \<le> totalSpent g"
    if e: "e \<in> (\<lambda>b. email (guest b)) ` set (recentBookings d)" "e \<noteq> []"
          "e \<notin> guest_email ` set (topGuests d)"
      and g: "g \<in> set (topGuests d)" for e g
  proof -
    from e(1,2) have "e \<in> guest_email ` set (guestItems ?f)"
      by (simp add: guestItems_email_set rb)
    then obtain h where h: "h \<in> set (guestItems ?f)" "guest_email h = e" by auto
    with e(3) have out: "h \<notin> set (topGuests_of ?f)" by (auto simp: tg)
    from g have "g \<in> set (topGuests_of ?f)" by (simp add: tg)
    from topGuests_of_top [OF this h(1) out] have "totalSpent h \<le> totalSpent g" .
    with guestItems_entry(3) [OF h(1)] h(2) show ?thesis by (simp add: rb totalRevenue_of_def)
  qed
  from len srt dst ent cnt top show ?thesis by blast
qed

theorem topGuests_grouped_sorted_top10_witness:
  "\<exists>d. processGraphQLData None (constDraws 0) [exHotel] [exRoom ''101'' True]
          [exBooking ''101'' ''a@x.org'' (Some (day 10)) (Some (day 11)) (Some 100),
           exBooking ''102'' ''b@x.org'' (Some (day 10)) (Some (day 12)) (Some 250),
           exBooking ''101'' ''a@x.org'' (Some (day 11)) (Some (day 12)) (Some 50)]
          (exRange (day 10) (day 11)) = Inr d
      \<and> map guest_email (topGuests d) = [''b@x.org'', ''a@x.org'']
      \<and> map totalSpent (topGuests d) = [250, 150]
      \<and> map bookings (topGuests d) = [1, 2]
      \<and> length (topGuests d) \<le> 10
      \<and> sorted_wrt (\<lambda>a b. totalSpent b \<le> totalSpent a) (topGuests d)"
proof -
  let ?rooms = "[exRoom ''101'' True]"
  let ?bs = "[exBooking ''101'' ''a@x.org'' (Some (day 10)) (Some (day 11)) (Some 100),
           exBooking ''102'' ''b@x.org'' (Some (day 10)) (Some (day 12)) (Some 250),
           exBooking ''101'' ''a@x.org'' (Some (day 11)) (Some (day 12)) (Some 50)]"
  obtain h where run: "processGraphQLData None (constDraws 0) [exHotel] ?rooms ?bs (exRange (day 10) (day 11))
       = Inr (dashboardData h (constDraws 0) ?rooms ?bs (day 10) (day 11))"
    using ex_run by blast
  let ?d = "dashboardData h (constDraws 0) ?rooms ?bs (day 10) (day 11)"
  have f: "filteredBookings ?bs (day 10) (day 11) = ?bs"
    by (simp add: ex_filter_in filteredBookings_Nil day_def msPerDay_def)
  have st: "guestStats_of ?bs
              = ([(''a@x.org'', 2), (''b@x.org'', 1)], [(''a@x.org'', 150), (''b@x.org'', 250)],
                 [(''a@x.org'', ''Ada Byron''), (''b@x.org'', ''Ada Byron'')])"
    by (simp add: guestStats_of_def ex_guestStats_step fadd_def roundDouble_numeral)
  have tg: "topGuests ?d
              = [\<lparr>guest_name = ''Ada Byron'', guest_email = ''b@x.org'', bookings = 1, totalSpent = 250\<rparr>,
                 \<lparr>guest_name = ''Ada Byron'', guest_email = ''a@x.org'', bookings = 2, totalSpent = 150\<rparr>]"
    by (simp add: dashboardData_lists f topGuests_of_def guestItems_def st)
  from topGuests_grouped_sorted_top10 [OF run] tg run show ?thesis
    by (intro exI [of _ ?d]) simp
qed

section \<open>Dashboard: the comparator of the sort\<close>

lemma double_grid:
  assumes "roundDouble x = x"
  shows "\<exists>m::int. x = real_of_int m * 2 powr real_of_int (- 1074)"
proof (cases "x = 0")
  case True
  then have "x = real_of_int 0 * 2 powr real_of_int (- 1074)" by simp
  then show ?thesis by blast
next
  case False
  define r where "r = roundHalfEven (x / ulp x)"
  define n where "n = nat (binade x + 1022)"
  have b: "binade x - 52 = int n + (- 1074)"
    using binade_ge [of x] by (simp add: n_def)
  have "ulp x = 2 powr (real n + real_of_int (- 1074))"
    unfolding ulp_def b by simp
  also have "\<dots> = 2 ^ n * 2 powr real_of_int (- 1074)"
    by (simp only: powr_add powr_realpow zero_less_numeral)
  finally have u: "ulp x = 2 ^ n * 2 powr real_of_int (- 1074)" .
  from assms False have "x = real_of_int r * ulp x" by (simp add: roundDouble_def r_def)
  then have "x = real_of_int (r * 2 ^ n) * 2 powr real_of_int (- 1074)"
    by (simp add: u)
  then show ?thesis by blast
qed

lemma fsub_pos_iff:
  assumes "roundDouble x = x" "roundDouble y = y"
  shows "0 < fsub y x \<longleftrightarrow> x < y"
proof
  assume "0 < fsub y x"
  show "x < y"
  proof (rule ccontr)
    assume "\<not> x < y"
    then have "y - x \<le> real_of_int 0" by simp
    then have "roundDouble (y - x) \<le> real_of_int 0" by (rule roundDouble_le_int) simp
    with \<open>0 < fsub y x\<close> show False by (simp add: fsub_def)
  qed
next
  assume lt: "x < y"
  from assms obtain m n :: int
    where x: "x = real_of_int m * 2 powr real_of_int (- 1074)"
      and y: "y = real_of_int n * 2 powr real_of_int (- 1074)"
    using double_grid by blast
  have p: "0 < (2::real) powr real_of_int (- 1074)" by simp
  from lt have "real_of_int m < real_of_int n"
    unfolding x y using p by (simp only: mult_less_cancel_right_pos)
  then have "m + 1 \<le> n" by simp
  then have "real_of_int m + 1 \<le> real_of_int n" by linarith
  then have "(real_of_int m + 1) * 2 powr real_of_int (- 1074)
               \<le> real_of_int n * 2 powr real_of_int (- 1074)"
    using p by (simp only: mult_le_cancel_right_pos)
  then have "real_of_int 1 * 2 powr real_of_int (- 1074) \<le> y - x"
    unfolding x y by (simp add: algebra_simps)
  then have "roundDouble (real_of_int 1 * 2 powr real_of_int (- 1074)) \<le> roundDouble (y - x)"
    by (rule roundDouble_mono)
  moreover have "roundDouble (real_of_int 1 * 2 powr real_of_int (- 1074))
      = real_of_int 1 * 2 powr real_of_int (- 1074)"
    by (rule roundDouble_dyadic) simp_all
  ultimately have "2 powr real_of_int (- 1074) \<le> roundDouble (y - x)" by simp
  with p show "0 < fsub y x" unfolding fsub_def by linarith
qed

lemma fsub_neg_iff:
  assumes "roundDouble x = x" "roundDouble y = y"
  shows "fsub y x < 0 \<longleftrightarrow> y < x"
  using fsub_pos_iff [OF assms(2,1)] fsub_swap [of y x] by simp

lemma fsub_zero_iff:
  assumes "roundDouble x = x" "roundDouble y = y"
  shows "fsub y x = 0 \<longleftrightarrow> y = x"
  using fsub_pos_iff [OF assms] fsub_neg_iff [OF assms] by (metis less_irrefl not_less_iff_gr_or_eq)

text \<open>
  The comparator \<open>b.totalSpent - a.totalSpent\<close> of the sort orders two items as the exact
  difference of their \<open>totalSpent\<close> does: rounding the difference keeps its sign.
\<close>

lemma topGuests_comparator:
  assumes "a \<in> set (guestItems bs)" "b \<in> set (guestItems bs)"
  shows "fsub (totalSpent b) (totalSpent a) < 0 \<longleftrightarrow> - totalSpent a < - totalSpent b"
    and "0 < fsub (totalSpent b) (totalSpent a) \<longleftrightarrow> - totalSpent b < - totalSpent a"
    and "fsub (totalSpent b) (totalSpent a) = 0 \<longleftrightarrow> - totalSpent a = - totalSpent b"
proof -
  have a: "roundDouble (totalSpent a) = totalSpent a"
    unfolding guestItems_entry(3) [OF assms(1)] by (rule totalRevenue_of_double)
  have b: "roundDouble (totalSpent b) = totalSpent b"
    unfolding guestItems_entry(3) [OF assms(2)] by (rule totalRevenue_of_double)
  show "fsub (totalSpent b) (totalSpent a) < 0 \<longleftrightarrow> - totalSpent a < - totalSpent b"
    using fsub_neg_iff [OF a b] by simp
  show "0 < fsub (totalSpent b) (totalSpent a) \<longleftrightarrow> - totalSpent b < - totalSpent a"
    using fsub_pos_iff [OF a b] by simp
  show "fsub (totalSpent b) (totalSpent a) = 0 \<longleftrightarrow> - totalSpent a = - totalSpent b"
    using fsub_zero_iff [OF a b] by auto
qed

section \<open>Dashboard: occupancy timeline\<close>

lemma occupancyTimeline_loop_active:
  "0 < active \<Longrightarrow>
   occupancyTimeline_loop filtered active random dateTo currentDate k
     = occupancyTimeline_loop filtered active random' dateTo currentDate k'"
proof (induction filtered active random dateTo currentDate k arbitrary: k'
        rule: occupancyTimeline_loop.induct)
  case (1 filtered active random dateTo currentDate k)
  show ?case
  proof (cases currentDate)
    case None
    then show ?thesis
      by (subst occupancyTimeline_loop.simps, subst (2) occupancyTimeline_loop.simps) simp
  next
    case (Some cur)
    show ?thesis
    proof (cases "cur \<le> dateTo")
      case True
      have rate: "dayOccupancyRate filtered active random cur k
                    = dayOccupancyRate filtered active random' cur k'"
        using "1.prems" by (simp add: dayOccupancyRate_def)
      have rest: "occupancyTimeline_loop filtered active random dateTo (TimeClip (cur + msPerDay)) k
                    = occupancyTimeline_loop filtered active random' dateTo (TimeClip (cur + msPerDay)) k'"
        using "1.IH" [OF Some True "1.prems", of k'] "1.prems" by simp
      show ?thesis
        using Some True "1.prems" rate rest
        by (subst occupancyTimeline_loop.simps, subst (2) occupancyTimeline_loop.simps) simp
    next
      case False
      with Some show ?thesis
        by (subst occupancyTimeline_loop.simps, subst (2) occupancyTimeline_loop.simps) simp
    qed
  qed
qed

lemma occupancyTimeline_loop_entries:
  "e \<in> set (occupancyTimeline_loop filtered active random dateTo currentDate k) \<Longrightarrow>
   0 < active \<Longrightarrow>
   occupancy e = Some (Math_round (fmul (fdiv (real (length (dateBookings filtered (date e))))
                                           (real active)) 100))"
proof (induction filtered active random dateTo currentDate k
        rule: occupancyTimeline_loop.induct)
  case (1 filtered active random dateTo currentDate k)
  show ?case
  proof (cases currentDate)
    case None
    with "1.prems"(1) have False by (subst (asm) occupancyTimeline_loop.simps) simp
    then show ?thesis ..
  next
    case (Some cur)
    show ?thesis
    proof (cases "cur \<le> dateTo")
      case True
      from "1.prems"(1) Some True
      have "e = \<lparr>date = cur, trend_bookings = None, revenue = None,
                  occupancy = Some (dayOccupancyRate filtered active random cur k)\<rparr>
          \<or> e \<in> set (occupancyTimeline_loop filtered active random dateTo (TimeClip (cur + msPerDay))
                        (if active > 0 then k else Suc k))"
        by (subst (asm) occupancyTimeline_loop.simps) simp
      then show ?thesis
      proof
        assume "e = \<lparr>date = cur, trend_bookings = None, revenue = None,
                  occupancy = Some (dayOccupancyRate filtered active random cur k)\<rparr>"
        with "1.prems"(2) show ?thesis by (simp add: dayOccupancyRate_def)
      next
        assume "e \<in> set (occupancyTimeline_loop filtered active random dateTo (TimeClip (cur + msPerDay))
                        (if active > 0 then k else Suc k))"
        from "1.IH" [OF Some True this "1.prems"(2)] show ?thesis .
      qed
    next
      case False
      with Some "1.prems"(1) have False by (subst (asm) occupancyTimeline_loop.simps) simp
      then show ?thesis ..
    qed
  qed
qed

lemma occupancyTimeline_loop_step:
  "cur \<le> dateTo \<Longrightarrow>
   occupancyTimeline_loop filtered active random dateTo (Some cur) k
     = \<lparr>date = cur, trend_bookings = None, revenue = None,
         occupancy = Some (dayOccupancyRate filtered active random cur k)\<rparr>
       # occupancyTimeline_loop filtered active random dateTo (TimeClip (cur + msPerDay))
           (if active > 0 then k else Suc k)"
  by (subst occupancyTimeline_loop.simps) simp

lemma occupancyTimeline_loop_stop:
  "dateTo < cur \<Longrightarrow> occupancyTimeline_loop filtered active random dateTo (Some cur) k = []"
  "occupancyTimeline_loop filtered active random dateTo None k = []"
  by (subst occupancyTimeline_loop.simps, simp)+

text \<open>
  C8. With at least one active room, two runs of \<open>processGraphQLData\<close> on the same inputs
  return the same occupancy timeline whatever the pseudo-random sequences of the two runs
  are, and every entry of the timeline is the rounded percentage of the filtered bookings
  that cover the entry's instant (check-in at or before it, check-out at or after it) over
  the active rooms: \<open>Math.round\<close> of the double quotient of the two counts times 100. The
  random fill value is thus used only without an active room.
\<close>

theorem occupancyTimeline_deterministic:
  assumes "processGraphQLData selectedHotel random getHotels rooms bs dateRange = Inr d"
    and "processGraphQLData selectedHotel random' getHotels rooms bs dateRange = Inr d'"
    and "0 < length (filter isActive rooms)"
  shows "occupancyTimeline d = occupancyTimeline d'
       \<and> (\<forall>e \<in> set (occupancyTimeline d).
            occupancy e =
              Some (Math_round
                (fmul (fdiv (real (length (filter (\<lambda>b. dateWithin (Some (date e)) (checkInDate b)
                                                       (checkOutDate b))
                                             (recentBookings d))))
                            (real (length (filter isActive rooms)))) 100)))"
proof -
  from assms(1) obtain dateFrom dateTo hotel
    where r: "range_from dateRange = Some dateFrom" "range_to dateRange = Some dateTo"
             "hotel_of selectedHotel getHotels = Some hotel"
      and d: "d = dashboardData hotel random rooms bs dateFrom dateTo"
    by (rule processGraphQLData_Inr)
  from assms(2) obtain dateFrom' dateTo' hotel'
    where r': "range_from dateRange = Some dateFrom'" "range_to dateRange = Some dateTo'"
              "hotel_of selectedHotel getHotels = Some hotel'"
      and "d' = dashboardData hotel' random' rooms bs dateFrom' dateTo'"
    by (rule processGraphQLData_Inr)
  with r have d': "d' = dashboardData hotel random' rooms bs dateFrom dateTo" by simp
  have act: "0 < activeRooms rooms" using assms(3) by (simp add: activeRooms_def)
  have same: "occupancyTimeline d = occupancyTimeline d'"
    unfolding d d' dashboardData_timeline by (rule occupancyTimeline_loop_active [OF act])
  have each: "occupancy e =
              Some (Math_round
                (fmul (fdiv (real (length (filter (\<lambda>b. dateWithin (Some (date e)) (checkInDate b)
                                                       (checkOutDate b))
                                             (recentBookings d))))
                            (real (length (filter isActive rooms)))) 100))"
    if "e \<in> set (occupancyTimeline d)" for e
    using occupancyTimeline_loop_entries [OF that [unfolded d dashboardData_timeline] act]
    by (simp add: d dashboardData_lists dateBookings_def activeRooms_def)
  from same each show ?thesis by blast
qed

theorem occupancyTimeline_deterministic_witness:
  "\<exists>d d'. processGraphQLData None (constDraws 0) [exHotel] [exRoom ''101'' True]
             [exBooking ''101'' ''a@x.org'' (Some (day 10)) (Some (day 12)) (Some 300)]
             (exRange (day 10) (day 11)) = Inr d
      \<and> processGraphQLData None (constDraws (1 / 2)) [exHotel] [exRoom ''101'' True]
             [exBooking ''101'' ''a@x.org'' (Some (day 10)) (Some (day 12)) (Some 300)]
             (exRange (day 10) (day 11)) = Inr d'
      \<and> 0 < length (filter isActive [exRoom ''101'' True])
      \<and> occupancyTimeline d = occupancyTimeline d'
      \<and> map date (occupancyTimeline d) = [day 10, day 11]
      \<and> map occupancy (occupancyTimeline d) = [Some 100, Some 100]"
proof -
  let ?rooms = "[exRoom ''101'' True]"
  let ?b = "exBooking ''101'' ''a@x.org'' (Some (day 10)) (Some (day 12)) (Some 300)"
  obtain h where run: "processGraphQLData None (constDraws 0) [exHotel] ?rooms [?b] (exRange (day 10) (day 11))
       = Inr (dashboardData h (constDraws 0) ?rooms [?b] (day 10) (day 11))"
    using ex_run by blast
  obtain h' where run': "processGraphQLData None (constDraws (1 / 2)) [exHotel] ?rooms [?b] (exRange (day 10) (day 11))
       = Inr (dashboardData h' (constDraws (1 / 2)) ?rooms [?b] (day 10) (day 11))"
    using ex_run by blast
  let ?d = "dashboardData h (constDraws 0) ?rooms [?b] (day 10) (day 11)"
  have act: "0 < length (filter isActive ?rooms)" by (simp add: exRoom_def)
  have a1: "activeRooms ?rooms = Suc 0" by (simp add: activeRooms_def exRoom_def)
  have f: "filteredBookings [?b] (day 10) (day 11) = [?b]"
    by (simp add: ex_filter_in filteredBookings_Nil day_def msPerDay_def)
  have r: "dayOccupancyRate [?b] (Suc 0) rnd (day 10) k = 100"
    "dayOccupancyRate [?b] (Suc 0) rnd (day 11) k = 100"
    for rnd k
    by (simp_all add: dayOccupancyRate_def dateBookings_def dateWithin_def exBooking_def
        Math_round_def day_def msPerDay_def fdiv_def fmul_def roundDouble_numeral)
  have steps: "day 10 \<le> day 11" "TimeClip (day 10 + msPerDay) = Some (day 11)"
    "TimeClip (day 11 + msPerDay) = Some (day 12)" "day 11 < day 12"
    by (simp_all add: day_def msPerDay_def TimeClip_def)
  have tl: "occupancyTimeline ?d
              = [\<lparr>date = day 10, trend_bookings = None, revenue = None, occupancy = Some 100\<rparr>,
                 \<lparr>date = day 11, trend_bookings = None, revenue = None, occupancy = Some 100\<rparr>]"
    by (simp add: dashboardData_timeline f a1 occupancyTimeline_loop_step
        occupancyTimeline_loop_stop steps r)
  have same: "occupancyTimeline ?d
                = occupancyTimeline (dashboardData h' (constDraws (1 / 2)) ?rooms [?b] (day 10) (day 11))"
    using occupancyTimeline_deterministic [OF run run' act] by (rule conjunct1)
  show ?thesis
  proof (intro exI conjI)
    show "processGraphQLData None (constDraws 0) [exHotel] ?rooms [?b] (exRange (day 10) (day 11))
            = Inr ?d"
      by (rule run)
    show "processGraphQLData None (constDraws (1 / 2)) [exHotel] ?rooms [?b] (exRange (day 10) (day 11))
            = Inr (dashboardData h' (constDraws (1 / 2)) ?rooms [?b] (day 10) (day 11))"
      by (rule run')
    show "0 < length (filter isActive ?rooms)" by (rule act)
    show "occupancyTimeline ?d
            = occupancyTimeline (dashboardData h' (constDraws (1 / 2)) ?rooms [?b] (day 10) (day 11))"
      by (rule same)
    show "map date (occupancyTimeline ?d) = [day 10, day 11]" by (simp add: tl)
    show "map occupancy (occupancyTimeline ?d) = [Some 100, Some 100]" by (simp add: tl)
  qed
qed

section \<open>Dashboard: a date range without bookings\<close>

lemma filteredBookings_none:
  assumes "\<forall>b \<in> set bs. \<forall>c. checkInDate b = Some c \<longrightarrow> c < dateFrom \<or> dateTo < c"
  shows "filteredBookings bs dateFrom dateTo = []"
  using assms
  by (auto simp: filteredBookings_def dateWithin_def filter_empty_conv split: option.splits)

lemma Math_round_zero: "Math_round 0 = 0"
  by (simp add: Math_round_def)

lemma Math_round_minus_100: "Math_round (- 100) = - 100"
  by (simp add: Math_round_def)

lemma roundDouble_minus_one: "roundDouble (- 1) = - 1"
  using roundDouble_minus [of 1] by simp

lemma fmul_minus_one_100: "fmul (- 1) 100 = - 100"
  by (simp add: fmul_def roundDouble_neg_numeral)

lemma totalBookingsChange_of_no_bookings:
  "totalBookingsChange_of [] previousPeriod = (if previousPeriod = [] then 0 else - 100)"
proof (cases "previousPeriod = []")
  case True
  then show ?thesis by (simp add: totalBookingsChange_of_def)
next
  case False
  then have n: "real (length previousPeriod) \<noteq> 0" by simp
  have "fdiv (- real (length previousPeriod)) (real (length previousPeriod)) = - 1"
    using n by (simp add: fdiv_def roundDouble_minus_one)
  with False show ?thesis
    by (simp add: totalBookingsChange_of_def fmul_minus_one_100)
qed

lemma totalRevenueChange_of_no_bookings:
  "totalRevenueChange_of [] previousPeriod
     = (if totalRevenue_of previousPeriod = 0 then 0 else - 100)"
proof (cases "totalRevenue_of previousPeriod = 0")
  case True
  then show ?thesis by (simp add: totalRevenueChange_of_def)
next
  case False
  let ?p = "totalRevenue_of previousPeriod"
  have "fsub 0 ?p = - ?p" by (simp add: fsub_def roundDouble_minus)
  moreover have "fdiv (- ?p) ?p = - 1"
    using False by (simp add: fdiv_def roundDouble_minus_one)
  ultimately show ?thesis
    using False by (simp add: totalRevenueChange_of_def fmul_minus_one_100)
qed

lemma totalBookingsChange_of_zero_baseline: "totalBookingsChange_of filtered [] = 0"
  by (simp add: totalBookingsChange_of_def)

lemma totalRevenueChange_of_zero_baseline:
  "totalRevenue_of previousPeriod = 0 \<Longrightarrow> totalRevenueChange_of filtered previousPeriod = 0"
  by (simp add: totalRevenueChange_of_def)

lemma no_bookings_lists:
  "bookingTrends_of [] = []" "revenueTrends_of [] = []" "bookingSources_of [] = []"
  "bookingStatus_of [] = []" "revenueByRoomType_of [] = []" "topGuests_of [] = []"
  by (simp_all add: bookingTrends_of_def bookingsByDate_def revenueTrends_of_def
      bookingSources_of_def bookingStatus_of_def revenueByRoomType_of_def topGuests_of_def
      guestItems_def guestStats_of_def)

lemma no_bookings_values:
  "map item_value (guestTypes_of []) = [0, 0]"
  "\<forall>i \<in> set (roomTypePerformance_of rooms []). item_value i = 0"
  "\<forall>i \<in> set (mockShares shares []). item_value i = 0"
  by (auto simp: guestTypes_of_def roomTypePerformance_of_def mockShares_def fmul_def
      Math_round_zero)

lemma no_bookings_rates:
  "occupancyRate_of rooms [] = 0" "averageDailyRate_of [] = 0"
  "revPAR_of rooms [] dateFrom dateTo = 0"
  by (simp_all add: occupancyRate_of_def occupiedRooms_def averageDailyRate_of_def
      totalNights_def revPAR_of_def totalRevenue_of_def fdiv_def fmul_def Math_round_zero)

text \<open>
  C3 (as amended). When no booking's check-in date falls within the date range, the
  derived counts are 0: total bookings, revenue and guests, the three rates, every list
  that groups the filtered bookings is empty, every per-category value is 0, and with an
  active room every day of the occupancy timeline is 0. The two percentage changes are 0
  when the comparison baseline is empty (respectively has revenue 0), and -100 otherwise.
\<close>

theorem no_booking_in_range:
  assumes "processGraphQLData selectedHotel random getHotels rooms bs dateRange = Inr d"
    and "range_from dateRange = Some dateFrom" and "range_to dateRange = Some dateTo"
    and "\<forall>b \<in> set bs. \<forall>c. checkInDate b = Some c \<longrightarrow> c < dateFrom \<or> dateTo < c"
  shows "totalBookings (overview d) = 0 \<and> totalRevenue (overview d) = 0
       \<and> totalGuests (overview d) = 0
       \<and> occupancyRate (overview d) = 0 \<and> averageDailyRate (overview d) = 0
       \<and> revPAR (overview d) = 0
       \<and> recentBookings d = [] \<and> bookingTrends d = [] \<and> revenueTrends d = []
       \<and> bookingSources d = [] \<and> bookingStatusDistribution d = []
       \<and> revenueByRoomType d = [] \<and> topGuests d = []
       \<and> map item_value (guestTypes d) = [0, 0]
       \<and> (\<forall>i \<in> set (roomTypePerformance d @ guestSatisfaction d @ guestDemographics d
                        @ paymentMethods d @ stayDuration d). item_value i = 0)
       \<and> (0 < length (filter isActive rooms) \<longrightarrow>
            (\<forall>e \<in> set (occupancyTimeline d). occupancy e = Some 0))
       \<and> totalBookingsChange (overview d)
            = (if previousPeriodBookings bs dateFrom dateTo = [] then 0 else - 100)
       \<and> totalRevenueChange (overview d)
            = (if totalRevenue_of (previousPeriodBookings bs dateFrom dateTo) = 0 then 0 else - 100)"
proof -
  from assms(1) obtain f t hotel
    where "range_from dateRange = Some f" "range_to dateRange = Some t"
      and "d = dashboardData hotel random rooms bs f t"
    by (rule processGraphQLData_Inr)
  with assms(2,3) have d: "d = dashboardData hotel random rooms bs dateFrom dateTo" by simp
  have f: "filteredBookings bs dateFrom dateTo = []"
    by (rule filteredBookings_none [OF assms(4)])
  have ov: "totalBookings (overview d) = 0" "totalRevenue (overview d) = 0"
    "totalGuests (overview d) = 0"
    by (simp_all add: d dashboardData_overview f totalRevenue_of_def totalGuests_of_def)
  have rates: "occupancyRate (overview d) = 0" "averageDailyRate (overview d) = 0"
    "revPAR (overview d) = 0"
    by (simp_all add: d dashboardData_overview f no_bookings_rates)
  have lists: "recentBookings d = []" "bookingTrends d = []" "revenueTrends d = []"
    "bookingSources d = []" "bookingStatusDistribution d = []"
    "revenueByRoomType d = []" "topGuests d = []"
    by (simp_all add: d dashboardData_lists f no_bookings_lists)
  have gt: "map item_value (guestTypes d) = [0, 0]"
    by (simp add: d dashboardData_lists f no_bookings_values)
  have v1: "\<forall>i \<in> set (roomTypePerformance d). item_value i = 0"
    by (simp add: d dashboardData_lists f no_bookings_values)
  have v2: "\<forall>i \<in> set (guestSatisfaction d). item_value i = 0"
    "\<forall>i \<in> set (guestDemographics d). item_value i = 0"
    "\<forall>i \<in> set (paymentMethods d). item_value i = 0"
    "\<forall>i \<in> set (stayDuration d). item_value i = 0"
    unfolding d dashboardData_mock f guestSatisfaction_of_def guestDemographics_of_def
      paymentMethods_of_def stayDuration_of_def
    by (rule no_bookings_values(3))+
  have vals: "\<forall>i \<in> set (roomTypePerformance d @ guestSatisfaction d @ guestDemographics d
                        @ paymentMethods d @ stayDuration d). item_value i = 0"
    using v1 v2 by (simp add: ball_Un)
  have tl: "occupancy e = Some 0"
    if "0 < length (filter isActive rooms)" "e \<in> set (occupancyTimeline d)" for e
  proof -
    from that(1) have act: "0 < activeRooms rooms" by (simp add: activeRooms_def)
    from occupancyTimeline_loop_entries [OF that(2) [unfolded d dashboardData_timeline] act]
    show ?thesis by (simp add: f dateBookings_def fmul_def Math_round_zero)
  qed
  have ch: "totalBookingsChange (overview d)
            = (if previousPeriodBookings bs dateFrom dateTo = [] then 0 else - 100)"
    by (simp add: d dashboardData_overview f totalBookingsChange_of_no_bookings
        Math_round_zero Math_round_minus_100)
  have rch: "totalRevenueChange (overview d)
            = (if totalRevenue_of (previousPeriodBookings bs dateFrom dateTo) = 0 then 0 else - 100)"
    by (simp add: d dashboardData_overview f totalRevenueChange_of_no_bookings
        Math_round_zero Math_round_minus_100)
  from ov rates lists gt vals tl ch rch show ?thesis by blast
qed

lemma ex_previous:
  "previousPeriodBookings (exBooking r e (Some c) co a # bs) dateFrom dateTo
     = (if dateWithin (Some c) (previousPeriodStart dateFrom dateTo) (previousPeriodEnd dateFrom)
        then exBooking r e (Some c) co a # previousPeriodBookings bs dateFrom dateTo
        else previousPeriodBookings bs dateFrom dateTo)"
  "previousPeriodBookings [] dateFrom dateTo = []"
  by (simp_all add: previousPeriodBookings_def exBooking_def)

lemma ex_period_one_day:
  "previousPeriodStart (day 10) (day 11) = Some (day 10 - 86400000 * msPerDay)"
  "previousPeriodEnd (day 10) = Some (day 9)"
  by (simp_all add: previousPeriodStart_def previousPeriodEnd_def subDays_def TimeClip_def
      day_def msPerDay_def)

theorem no_booking_in_range_witness:
  "\<exists>d. processGraphQLData None (constDraws 0) [exHotel] [exRoom ''101'' True]
          [exBooking ''101'' ''a@x.org'' (Some (day 20)) (Some (day 21)) (Some 80)]
          (exRange (day 10) (day 11)) = Inr d
      \<and> totalBookings (overview d) = 0 \<and> totalRevenue (overview d) = 0
      \<and> totalGuests (overview d) = 0 \<and> recentBookings d = [] \<and> topGuests d = []
      \<and> totalBookingsChange (overview d) = 0 \<and> totalRevenueChange (overview d) = 0"
proof -
  let ?rooms = "[exRoom ''101'' True]"
  let ?bs = "[exBooking ''101'' ''a@x.org'' (Some (day 20)) (Some (day 21)) (Some 80)]"
  obtain h where run: "processGraphQLData None (constDraws 0) [exHotel] ?rooms ?bs (exRange (day 10) (day 11))
       = Inr (dashboardData h (constDraws 0) ?rooms ?bs (day 10) (day 11))"
    using ex_run by blast
  have r: "range_from (exRange (day 10) (day 11)) = Some (day 10)"
    "range_to (exRange (day 10) (day 11)) = Some (day 11)"
    by (simp_all add: exRange_def)
  have none: "\<forall>b \<in> set ?bs. \<forall>c. checkInDate b = Some c \<longrightarrow> c < day 10 \<or> day 11 < c"
    by (simp add: exBooking_def day_def msPerDay_def)
  have p: "previousPeriodBookings ?bs (day 10) (day 11) = []"
    by (simp add: ex_previous previousPeriodStart_def previousPeriodEnd_def subDays_def
        TimeClip_def dateWithin_def day_def msPerDay_def)
  have p0: "totalRevenue_of [] = 0" by (simp add: totalRevenue_of_def)
  from no_booking_in_range [OF run r none] run show ?thesis
    unfolding p p0 by (intro exI [of _ "dashboardData h (constDraws 0) ?rooms ?bs (day 10) (day 11)"]) simp
qed

text \<open>
  The percentage changes are not always 0: with no booking in the range and one booking on
  the day before it, both changes are -100.
\<close>

theorem no_booking_in_range_counterexample:
  "filteredBookings [exBooking ''101'' ''a@x.org'' (Some (day 9)) (Some (day 10)) (Some 70)]
      (day 10) (day 11) = []
   \<and> map_sum id (totalBookingsChange \<circ> overview)
       (processGraphQLData None (constDraws 0) [exHotel] [exRoom ''101'' True]
          [exBooking ''101'' ''a@x.org'' (Some (day 9)) (Some (day 10)) (Some 70)]
          (exRange (day 10) (day 11))) = Inr (- 100)
   \<and> map_sum id (totalRevenueChange \<circ> overview)
       (processGraphQLData None (constDraws 0) [exHotel] [exRoom ''101'' True]
          [exBooking ''101'' ''a@x.org'' (Some (day 9)) (Some (day 10)) (Some 70)]
          (exRange (day 10) (day 11))) = Inr (- 100)"
proof -
  let ?rooms = "[exRoom ''101'' True]"
  let ?bs = "[exBooking ''101'' ''a@x.org'' (Some (day 9)) (Some (day 10)) (Some 70)]"
  obtain h where run: "processGraphQLData None (constDraws 0) [exHotel] ?rooms ?bs (exRange (day 10) (day 11))
       = Inr (dashboardData h (constDraws 0) ?rooms ?bs (day 10) (day 11))"
    using ex_run by blast
  have f: "filteredBookings ?bs (day 10) (day 11) = []"
    by (simp add: ex_filter_out filteredBookings_Nil day_def msPerDay_def)
  have p: "previousPeriodBookings ?bs (day 10) (day 11) = ?bs"
    by (simp add: ex_previous previousPeriodStart_def previousPeriodEnd_def subDays_def
        TimeClip_def dateWithin_def day_def msPerDay_def)
  have r: "totalRevenue_of ?bs = 70"
    by (simp add: totalRevenue_of_def ex_amount fadd_def roundDouble_numeral)
  have c1: "Math_round (totalBookingsChange_of [] ?bs) = - 100"
    by (simp add: totalBookingsChange_of_no_bookings Math_round_minus_100)
  have c2: "Math_round (totalRevenueChange_of [] ?bs) = - 100"
    by (simp add: totalRevenueChange_of_no_bookings r Math_round_minus_100)
  show ?thesis
    by (simp add: run dashboardData_overview f p c1 c2)
qed

section \<open>Dashboard: the previous period\<close>

text \<open>
  C2. The comparison baseline is meant to be the bookings that check in during a period
  of the same length as the date range that ends on the day before \<open>from\<close>. The code does
  not compute that period. For the range from day 10 to day 11, its previous period starts
  86400000 days before day 10: a booking of day 5 is in the code's baseline and outside the
  period of equal length, and \<open>totalBookingsChange\<close> is 100 where the baseline of equal length
  is empty. For the range from day 100 to day 130, the start of the code's previous
  period is an Invalid Date: its baseline is empty, though a booking of day 95 lies in the
  period of equal length.
\<close>

theorem previousPeriod_not_of_equal_length:
  "previousPeriodStart (day 10) (day 11) = Some (day 10 - 86400000 * msPerDay)
   \<and> previousPeriodBookings
        [exBooking ''101'' ''a@x.org'' (Some (day 10)) (Some (day 11)) (Some 100),
         exBooking ''102'' ''b@x.org'' (Some (day 10)) (Some (day 11)) (Some 100),
         exBooking ''101'' ''c@x.org'' (Some (day 5)) (Some (day 6)) (Some 100)] (day 10) (day 11)
       = [exBooking ''101'' ''c@x.org'' (Some (day 5)) (Some (day 6)) (Some 100)]
   \<and> baselineBookings_spec
        [exBooking ''101'' ''a@x.org'' (Some (day 10)) (Some (day 11)) (Some 100),
         exBooking ''102'' ''b@x.org'' (Some (day 10)) (Some (day 11)) (Some 100),
         exBooking ''101'' ''c@x.org'' (Some (day 5)) (Some (day 6)) (Some 100)] (day 10) (day 11)
       = []
   \<and> map_sum id (totalBookingsChange \<circ> overview)
       (processGraphQLData None (constDraws 0) [exHotel] [exRoom ''101'' True]
          [exBooking ''101'' ''a@x.org'' (Some (day 10)) (Some (day 11)) (Some 100),
           exBooking ''102'' ''b@x.org'' (Some (day 10)) (Some (day 11)) (Some 100),
           exBooking ''101'' ''c@x.org'' (Some (day 5)) (Some (day 6)) (Some 100)]
          (exRange (day 10) (day 11))) = Inr 100
   \<and> previousPeriodStart (day 100) (day 130) = None
   \<and> previousPeriodBookings
        [exBooking ''101'' ''c@x.org'' (Some (day 95)) (Some (day 96)) (Some 100)] (day 100) (day 130)
       = []
   \<and> baselineBookings_spec
        [exBooking ''101'' ''c@x.org'' (Some (day 95)) (Some (day 96)) (Some 100)] (day 100) (day 130)
       = [exBooking ''101'' ''c@x.org'' (Some (day 95)) (Some (day 96)) (Some 100)]"
proof -
  let ?rooms = "[exRoom ''101'' True]"
  let ?c = "exBooking ''101'' ''c@x.org'' (Some (day 5)) (Some (day 6)) (Some 100)"
  let ?in = "[exBooking ''101'' ''a@x.org'' (Some (day 10)) (Some (day 11)) (Some 100),
              exBooking ''102'' ''b@x.org'' (Some (day 10)) (Some (day 11)) (Some 100)]"
  let ?bs = "[exBooking ''101'' ''a@x.org'' (Some (day 10)) (Some (day 11)) (Some 100),
              exBooking ''102'' ''b@x.org'' (Some (day 10)) (Some (day 11)) (Some 100), ?c]"
  let ?late = "[exBooking ''101'' ''c@x.org'' (Some (day 95)) (Some (day 96)) (Some 100)]"
  obtain h where run: "processGraphQLData None (constDraws 0) [exHotel] ?rooms ?bs (exRange (day 10) (day 11))
       = Inr (dashboardData h (constDraws 0) ?rooms ?bs (day 10) (day 11))"
    using ex_run by blast
  have p: "previousPeriodBookings ?bs (day 10) (day 11) = [?c]"
    by (simp add: ex_previous previousPeriodStart_def previousPeriodEnd_def subDays_def
        TimeClip_def dateWithin_def day_def msPerDay_def)
  have s: "baselineBookings_spec ?bs (day 10) (day 11) = []"
    by (simp add: baselineBookings_spec_def dateWithin_def exBooking_def day_def msPerDay_def)
  have f: "filteredBookings ?bs (day 10) (day 11) = ?in"
    by (simp add: ex_filter_in ex_filter_out filteredBookings_Nil day_def msPerDay_def)
  have c: "Math_round (totalBookingsChange_of ?in [?c]) = 100"
    by (simp add: totalBookingsChange_of_def Math_round_def fdiv_def fmul_def roundDouble_numeral)
  have ch: "map_sum id (totalBookingsChange \<circ> overview)
       (processGraphQLData None (constDraws 0) [exHotel] ?rooms ?bs (exRange (day 10) (day 11)))
       = Inr 100"
    by (simp add: run dashboardData_overview f p c)
  have n: "previousPeriodStart (day 100) (day 130) = None"
    by (simp add: previousPeriodStart_def subDays_def TimeClip_def day_def msPerDay_def)
  have pl: "previousPeriodBookings ?late (day 100) (day 130) = []"
    by (simp add: ex_previous n dateWithin_def)
  have sl: "baselineBookings_spec ?late (day 100) (day 130) = ?late"
    by (simp add: baselineBookings_spec_def dateWithin_def exBooking_def day_def msPerDay_def)
  from ex_period_one_day(1) p s ch n pl sl show ?thesis by blast
qed

section \<open>Dashboard: inputs at which the rounding to a double shows\<close>

text \<open>
  23 occupied rooms of 40 active ones: the double quotient times 100 is
  57.49999999999999 and the occupancy rate 57, where the exact percentage 57.5 would be
  rounded to 58.
\<close>

lemma fdiv_23_40: "fdiv 23 40 = 5179139571476070 / 2 ^ 53"
  unfolding fdiv_def using roundDouble_eval [of "- 1" "23 / 40" 5179139571476070]
  by (simp add: two_powr_neg_numeral two_powr_neg_one)

lemma fmul_23_40: "fmul (fdiv 23 40) 100 = 8092405580431359 / 2 ^ 47"
  unfolding fmul_def fdiv_23_40
  using roundDouble_eval [of 5 "5179139571476070 / 2 ^ 53 * 100" 8092405580431359]
  by (simp add: two_powr_neg_numeral)

lemma occupancyRate_of_23_of_40:
  assumes "occupiedRooms filtered = 23" "activeRooms rooms = 40"
  shows "occupancyRate_of rooms filtered = 57"
    and "Math_round (real (occupiedRooms filtered) / real (activeRooms rooms) * 100) = 58"
  by (simp_all add: occupancyRate_of_def assms fmul_23_40 Math_round_def)

text \<open>
  29 bookings against 40 of the previous period: the double quotient times 100 is
  -27.500000000000004 and the change -28, where the exact percentage -27.5 would be
  rounded to -27.
\<close>

lemma fdiv_minus_11_40: "fdiv (- 11) 40 = - 4953959590107546 / 2 ^ 54"
  unfolding fdiv_def using roundDouble_eval [of "- 2" "- 11 / 40" "- 4953959590107546"]
  by (simp add: two_powr_neg_numeral)

lemma fmul_minus_11_40: "fmul (fdiv (- 11) 40) 100 = - 7740561859543041 / 2 ^ 48"
  unfolding fmul_def fdiv_minus_11_40
  using roundDouble_eval [of 4 "- 4953959590107546 / 2 ^ 54 * 100" "- 7740561859543041"]
  by (simp add: two_powr_neg_numeral)

lemma totalBookingsChange_of_29_against_40:
  assumes "length filtered = 29" "length previousPeriod = 40"
  shows "Math_round (totalBookingsChange_of filtered previousPeriod) = - 28"
    and "Math_round ((real_of_int (int (length filtered) - int (length previousPeriod))
                        / real (length previousPeriod)) * 100) = - 27"
  by (simp_all add: totalBookingsChange_of_def assms fmul_minus_11_40 Math_round_def)

text \<open>
  Four bookings of one night with the amounts 67.09, 276.30, 377.45 and 125.16: the revenue
  added from left to right is 845.9999999999999 and the average daily rate 211, where the
  exact sum 846 over 4 nights would be rounded to 212.
\<close>

lemma amount_1: "roundDouble (6709 / 100) = 4721039046879478 / 2 ^ 46"
  using roundDouble_eval [of 6 "6709 / 100" 4721039046879478]
  by (simp add: two_powr_neg_numeral)

lemma amount_2: "roundDouble (27630 / 100) = 4860721004072141 / 2 ^ 44"
  using roundDouble_eval [of 8 "27630 / 100" 4860721004072141]
  by (simp add: two_powr_neg_numeral)

lemma amount_3: "roundDouble (37745 / 100) = 6640170622464819 / 2 ^ 44"
  using roundDouble_eval [of 8 "37745 / 100" 6640170622464819]
  by (simp add: two_powr_neg_numeral)

lemma amount_4: "roundDouble (12516 / 100) = 8807352021276426 / 2 ^ 46"
  using roundDouble_eval [of 6 "12516 / 100" 8807352021276426]
  by (simp add: two_powr_neg_numeral)

lemma sum_2: "roundDouble (4721039046879478 / 2 ^ 46 + 4860721004072141 / 2 ^ 44) = 6040980765792010 / 2 ^ 44"
  using roundDouble_eval_tie [of 8 "4721039046879478 / 2 ^ 46 + 4860721004072141 / 2 ^ 44" 6040980765792010]
  by (simp add: two_powr_neg_numeral)

lemma sum_3: "roundDouble (6040980765792010 / 2 ^ 44 + 6640170622464819 / 2 ^ 44) = 6340575694128414 / 2 ^ 43"
  using roundDouble_eval_tie [of 9 "6040980765792010 / 2 ^ 44 + 6640170622464819 / 2 ^ 44" 6340575694128414]
  by (simp add: two_powr_neg_numeral)

lemma sum_4: "roundDouble (6340575694128414 / 2 ^ 43 + 8807352021276426 / 2 ^ 46) = 7441494696787967 / 2 ^ 43"
  using roundDouble_eval [of 9 "6340575694128414 / 2 ^ 43 + 8807352021276426 / 2 ^ 46" 7441494696787967]
  by (simp add: two_powr_neg_numeral)

lemma quotient_4: "roundDouble ((7441494696787967 / 2 ^ 43) / 4) = 7441494696787967 / 2 ^ 45"
  using roundDouble_eval [of 7 "(7441494696787967 / 2 ^ 43) / 4" 7441494696787967]
  by (simp add: two_powr_neg_numeral)

lemma totalRevenue_of_four_amounts:
  "totalRevenue_of
     [exBooking r1 e1 ci1 None (Some (6709 / 100)), exBooking r2 e2 ci2 None (Some (27630 / 100)),
      exBooking r3 e3 ci3 None (Some (37745 / 100)), exBooking r4 e4 ci4 None (Some (12516 / 100))]
     = 7441494696787967 / 2 ^ 43"
proof -
  have s1: "fadd 0 (roundDouble (6709 / 100)) = 4721039046879478 / 2 ^ 46"
    unfolding fadd_def add_0 roundDouble_idem by (rule amount_1)
  have s2: "fadd (4721039046879478 / 2 ^ 46) (roundDouble (27630 / 100)) = 6040980765792010 / 2 ^ 44"
    unfolding fadd_def amount_2 by (rule sum_2)
  have s3: "fadd (6040980765792010 / 2 ^ 44) (roundDouble (37745 / 100)) = 6340575694128414 / 2 ^ 43"
    unfolding fadd_def amount_3 by (rule sum_3)
  have s4: "fadd (6340575694128414 / 2 ^ 43) (roundDouble (12516 / 100)) = 7441494696787967 / 2 ^ 43"
    unfolding fadd_def amount_4 by (rule sum_4)
  show ?thesis
    unfolding totalRevenue_of_def foldl.simps ex_amount s1 s2 s3 s4 by (rule refl)
qed

lemma averageDailyRate_of_four_amounts:
  "averageDailyRate_of
     [exBooking r1 e1 ci1 None (Some (6709 / 100)), exBooking r2 e2 ci2 None (Some (27630 / 100)),
      exBooking r3 e3 ci3 None (Some (37745 / 100)), exBooking r4 e4 ci4 None (Some (12516 / 100))]
     = 211"
  "Math_round ((6709 / 100 + 27630 / 100 + 37745 / 100 + 12516 / 100) / 4) = 212"
proof -
  let ?bs = "[exBooking r1 e1 ci1 None (Some (6709 / 100)), exBooking r2 e2 ci2 None (Some (27630 / 100)),
      exBooking r3 e3 ci3 None (Some (37745 / 100)), exBooking r4 e4 ci4 None (Some (12516 / 100))]"
  have n: "totalNights ?bs = 4"
    by (simp add: totalNights_def ex_nights fadd_def roundDouble_numeral)
  have q: "fdiv (7441494696787967 / 2 ^ 43) 4 = 7441494696787967 / 2 ^ 45"
    unfolding fdiv_def by (rule quotient_4)
  show "averageDailyRate_of ?bs = 211"
    unfolding averageDailyRate_of_def n totalRevenue_of_four_amounts q
    by (simp add: Math_round_def)
  show "Math_round ((6709 / 100 + 27630 / 100 + 37745 / 100 + 12516 / 100) / 4) = 212"
    by (simp add: Math_round_def)
qed

end
